theory Spec2Isabelle
  imports Main
begin

section \<open>Order synchronisation jobs of the relayer\<close>

text \<open>
  The development embeds the two job modules
  \<^verbatim>\<open>src/jobs/opensea-sync/utils.ts\<close> (offset pagination, one function
  \<^verbatim>\<open>fetchOrders\<close>) and \<^verbatim>\<open>src/jobs/seaport-sync/utils.ts\<close> (cursor
  pagination, \<^verbatim>\<open>fetchOrders\<close> and \<^verbatim>\<open>fetchAllOrders\<close>).

  The collaborators the modules import (HTTP client, order parser, relay queue, database,
  clock) are not part of the two files. They enter the model as the fields of a
  \<open>world\<close> record: deterministic oracles, indexed by the number of the loop iteration
  that calls them, each of which may answer with an error. Every effect a function
  performs is appended to a trace kept in its state. JavaScript numbers are modelled by
  \<open>int\<close> and \<open>nat\<close>, strings by \<open>string\<close>.
\<close>

subsection \<open>Errors, outcomes and effects\<close>

datatype error =
    TypeError          \<comment> \<open>raised by the job's own code (a property read on \<open>undefined\<close>)\<close>
  | RangeError         \<comment> \<open>raised by \<open>format\<close> of date-fns on an invalid \<open>Date\<close>\<close>
  | Rejected string    \<comment> \<open>whatever a collaborator throws or rejects with\<close>

datatype 'a outcome =
    Returned 'a        \<comment> \<open>the async function resolves with the value\<close>
  | Raised error       \<comment> \<open>the async function rejects\<close>
  | OutOfFuel          \<comment> \<open>the loop is still running when the fuel is used up\<close>

datatype ('req, 'resp, 'env, 'row) event =
    EvFetch 'req "error + 'resp"   \<comment> \<open>\<open>axios.get\<close>: the request and its answer\<close>
  | EvEnqueue "'env list" bool "error option"
      \<comment> \<open>\<open>addToRelayOrdersQueue(batch, true)\<close> and the error it rejected with, if any\<close>
  | EvInsert "'row list" "error + nat"
      \<comment> \<open>\<open>db.manyOrNone(insert ... ON CONFLICT DO NOTHING RETURNING 1)\<close> and the
         number of rows it answered with\<close>
  | EvSleep nat                    \<comment> \<open>\<open>setTimeout(resolve, ms)\<close>\<close>

fun is_fetch :: "('req, 'resp, 'env, 'row) event \<Rightarrow> bool" where
  "is_fetch (EvFetch req response) = True"
| "is_fetch _ = False"

fun is_sleep :: "('req, 'resp, 'env, 'row) event \<Rightarrow> bool" where
  "is_sleep (EvSleep ms) = True"
| "is_sleep _ = False"

fun is_insert :: "('req, 'resp, 'env, 'row) event \<Rightarrow> bool" where
  "is_insert (EvInsert values result) = True"
| "is_insert _ = False"

definition fetches :: "('req, 'resp, 'env, 'row) event list \<Rightarrow> nat" where
  "fetches tr = length (filter is_fetch tr)"

definition sleeps :: "('req, 'resp, 'env, 'row) event list \<Rightarrow> nat" where
  "sleeps tr = length (filter is_sleep tr)"

definition inserts :: "('req, 'resp, 'env, 'row) event list \<Rightarrow> nat" where
  "inserts tr = length (filter is_insert tr)"

subsection \<open>Strings\<close>

text \<open>
  \<open>String.prototype.toLowerCase\<close> on the ASCII range: the letters \<open>A\<close> to \<open>Z\<close> (codes
  65 to 90) move to \<open>a\<close> to \<open>z\<close>, every other byte is kept. Hashes and addresses are
  hexadecimal ASCII strings.
\<close>

definition lower_char :: "char \<Rightarrow> char" where
  "lower_char c =
     (let n = (of_char c :: nat) in if 65 \<le> n \<and> n \<le> 90 then char_of (n + 32) else c)"

definition toLowerCase :: "string \<Rightarrow> string" where
  "toLowerCase s = map lower_char s"

text \<open>JavaScript truthiness of a string that may be \<open>undefined\<close>.\<close>

fun truthy :: "string option \<Rightarrow> bool" where
  "truthy None = False"
| "truthy (Some s) = (s \<noteq> [])"

subsection \<open>Data model\<close>

text \<open>What \<open>getInfo()\<close> of a parsed SDK order returns when it returns something.\<close>

record order_info =
  contract :: string

text \<open>
  A parsed SDK order (\<open>Sdk.WyvernV23.Order\<close>, \<open>Sdk.Seaport.Order\<close>): its parameters and
  the answer of \<open>getInfo()\<close>, which both handlers treat as possibly \<open>undefined\<close>.
\<close>

record 'p sdk_order =
  params :: 'p
  getInfo :: "order_info option"

text \<open>The envelope handed to the relay queue.\<close>

record 'p envelope =
  kind :: string
  env_data :: 'p

text \<open>
  The object pushed to \<open>values\<close>, one per order. \<open>delayed\<close> is \<open>None\<close> where the object
  literal has no such property (both cursor-mode handlers). \<open>created_at\<close> keeps the
  string handed to \<open>new Date\<close>.
\<close>

record 'd row =
  hash :: string
  target :: string
  maker :: string
  created_at :: string
  data :: 'd
  delayed :: "bool option"
  source :: string

text \<open>
  The collaborators. \<open>fetch\<close> stands for \<open>axios.get\<close> together with the read of
  \<open>response.data\<close>: an answer that cannot be read makes the page throw just as a
  failed request does. \<open>now\<close> is \<open>Math.floor(Date.now() / 1000)\<close>. \<open>insert_rows\<close> answers
  with the number of rows \<open>RETURNING 1\<close> yields, the rows the store did not have.
\<close>

record ('req, 'resp, 'ord, 'p, 'd) world =
  now :: "nat \<Rightarrow> int"
  fetch :: "nat \<Rightarrow> 'req \<Rightarrow> error + 'resp"
  parse :: "'ord \<Rightarrow> error + 'p sdk_order option"
  enqueue :: "nat \<Rightarrow> 'p envelope list \<Rightarrow> bool \<Rightarrow> error option"
  insert_rows :: "nat \<Rightarrow> 'd row list \<Rightarrow> error + nat"

text \<open>
  \<open>await Promise.all(orders.map((order) => plimit(() => handleOrder(order))))\<close>: every
  order is handled; a parsed order is pushed to \<open>parsedOrders\<close>, a row to \<open>values\<close>. The
  first failing handler fails the whole page. The interleaving of the handlers is not
  modelled: both lists are built in the order of the page.
\<close>

fun handleAll ::
  "('ord \<Rightarrow> error + ('p sdk_order option \<times> 'd row)) \<Rightarrow> 'ord list
     \<Rightarrow> error + ('p sdk_order list \<times> 'd row list)" where
  "handleAll h [] = Inr ([], [])"
| "handleAll h (x # xs) =
     (case h x of
        Inl e \<Rightarrow> Inl e
      | Inr (parsed, v) \<Rightarrow>
          (case handleAll h xs of
             Inl e \<Rightarrow> Inl e
           | Inr (ps, vs) \<Rightarrow>
               Inr ((case parsed of Some p \<Rightarrow> p # ps | None \<Rightarrow> ps), v # vs)))"

subsection \<open>Offset mode: \<open>opensea-sync/utils.ts\<close>\<close>

record OpenSeaOrder =
  prefixed_hash :: string
  order_target :: string           \<comment> \<open>\<open>order.target\<close>\<close>
  maker_address :: string          \<comment> \<open>\<open>order.maker.address\<close>\<close>
  created_date :: string
  asset :: "string option"         \<comment> \<open>the property the handler deletes\<close>
  nonce :: "string option"

record wyvern_params =
  params_nonce :: "string option"  \<comment> \<open>\<open>(parsed.params as any).nonce\<close>\<close>
  params_body :: string

text \<open>\<open>handleOrder\<close>, lines 56 to 84. \<open>once\<close> is the enclosing function's parameter.\<close>

definition opensea_handleOrder ::
  "(OpenSeaOrder \<Rightarrow> error + wyvern_params sdk_order option) \<Rightarrow> bool \<Rightarrow> OpenSeaOrder
     \<Rightarrow> error + (wyvern_params sdk_order option \<times> OpenSeaOrder row)" where
  "opensea_handleOrder parseOpenSeaOrder once order =
     (case parseOpenSeaOrder order of
        Inl e \<Rightarrow> Inl e
      | Inr parsed \<Rightarrow>
          (let orderTarget =
                 (case parsed of
                    None \<Rightarrow> order_target order
                  | Some p \<Rightarrow>
                      (case getInfo p of
                         None \<Rightarrow> order_target order
                       | Some info \<Rightarrow> contract info));
               order1 =
                 (case parsed of
                    None \<Rightarrow> order
                  | Some p \<Rightarrow>
                      (if truthy (params_nonce (params p))
                       then order\<lparr>nonce := params_nonce (params p)\<rparr>
                       else order));
               order2 = order1\<lparr>asset := None\<rparr>
           in Inr (parsed,
                \<lparr>hash = prefixed_hash order2,
                 target = toLowerCase orderTarget,
                 maker = toLowerCase (maker_address order2),
                 created_at = created_date order2,
                 data = order2,
                 delayed = Some (\<not> once),
                 source = ''opensea''\<rparr>)))"

subsection \<open>Cursor mode: \<open>seaport-sync/utils.ts\<close>\<close>

record offer_item =
  token :: string

record protocol_data =
  offer :: "offer_item list"       \<comment> \<open>\<open>protocol_data.parameters.offer\<close>\<close>
  parameters_rest :: string

record SeaportOrder =
  order_hash :: string
  seaport_maker_address :: string  \<comment> \<open>\<open>order.maker.address\<close>\<close>
  seaport_created_date :: string   \<comment> \<open>\<open>order.created_date\<close>\<close>
  protocol_data :: protocol_data

text \<open>
  \<open>order.protocol_data.parameters.offer[0].token\<close>: reading \<open>token\<close> of \<open>offer[0]\<close> raises
  a \<open>TypeError\<close> when the offer array is empty.
\<close>

definition offer0_token :: "SeaportOrder \<Rightarrow> error + string" where
  "offer0_token order =
     (case offer (protocol_data order) of
        [] \<Rightarrow> Inl TypeError
      | item # _ \<Rightarrow> Inr (token item))"

text \<open>\<open>parsed?.getInfo()?.contract\<close>: \<open>undefined\<close> as soon as one link is missing.\<close>

definition parsed_contract :: "'p sdk_order option \<Rightarrow> string option" where
  "parsed_contract parsed =
     (case parsed of
        None \<Rightarrow> None
      | Some p \<Rightarrow> (case getInfo p of None \<Rightarrow> None | Some info \<Rightarrow> Some (contract info)))"

text \<open>
  The \<open>target\<close> of \<open>fetchOrders\<close>, lines 51 to 53:
  \<open>parsed?.getInfo()?.contract.toLowerCase() || offer[0].token.toLowerCase()\<close>. The right
  operand of \<open>||\<close> is evaluated only when the left one is falsy (\<open>undefined\<close> or the
  empty string).
\<close>

definition fetchOrders_target :: "'p sdk_order option \<Rightarrow> SeaportOrder \<Rightarrow> error + string" where
  "fetchOrders_target parsed order =
     (if truthy (map_option toLowerCase (parsed_contract parsed))
      then Inr (toLowerCase (the (parsed_contract parsed)))
      else (case offer0_token order of
              Inl e \<Rightarrow> Inl e
            | Inr t \<Rightarrow> Inr (toLowerCase t)))"

text \<open>
  The \<open>target\<close> of \<open>fetchAllOrders\<close>, lines 162 to 164:
  \<open>(parsed?.getInfo()?.contract || offer[0].token).toLowerCase()\<close>.
\<close>

definition fetchAllOrders_target :: "'p sdk_order option \<Rightarrow> SeaportOrder \<Rightarrow> error + string" where
  "fetchAllOrders_target parsed order =
     (if truthy (parsed_contract parsed)
      then Inr (toLowerCase (the (parsed_contract parsed)))
      else (case offer0_token order of
              Inl e \<Rightarrow> Inl e
            | Inr t \<Rightarrow> Inr (toLowerCase t)))"

text \<open>\<open>handleOrder\<close> of \<open>fetchOrders\<close>, lines 42 to 59.\<close>

definition fetchOrders_handleOrder ::
  "(SeaportOrder \<Rightarrow> error + 'p sdk_order option) \<Rightarrow> SeaportOrder
     \<Rightarrow> error + ('p sdk_order option \<times> protocol_data row)" where
  "fetchOrders_handleOrder parseSeaportOrder order =
     (case parseSeaportOrder order of
        Inl e \<Rightarrow> Inl e
      | Inr parsed \<Rightarrow>
          (case fetchOrders_target parsed order of
             Inl e \<Rightarrow> Inl e
           | Inr t \<Rightarrow>
               Inr (parsed,
                 \<lparr>hash = toLowerCase (order_hash order),
                  target = t,
                  maker = toLowerCase (seaport_maker_address order),
                  created_at = seaport_created_date order,
                  data = protocol_data order,
                  delayed = None,
                  source = ''opensea''\<rparr>)))"

text \<open>\<open>handleOrder\<close> of \<open>fetchAllOrders\<close>, lines 153 to 170.\<close>

definition fetchAllOrders_handleOrder ::
  "(SeaportOrder \<Rightarrow> error + 'p sdk_order option) \<Rightarrow> SeaportOrder
     \<Rightarrow> error + ('p sdk_order option \<times> protocol_data row)" where
  "fetchAllOrders_handleOrder parseSeaportOrder order =
     (case parseSeaportOrder order of
        Inl e \<Rightarrow> Inl e
      | Inr parsed \<Rightarrow>
          (case fetchAllOrders_target parsed order of
             Inl e \<Rightarrow> Inl e
           | Inr t \<Rightarrow>
               Inr (parsed,
                 \<lparr>hash = order_hash order,
                  target = t,
                  maker = toLowerCase (seaport_maker_address order),
                  created_at = seaport_created_date order,
                  data = protocol_data order,
                  delayed = None,
                  source = ''opensea''\<rparr>)))"

subsection \<open>Requests and loop state\<close>

text \<open>
  The object literal handed to \<open>buildFetchOrdersURL\<close>; a property the literal does not
  have is \<open>None\<close>. The function itself belongs to the modules the jobs import and is
  kept abstract: a request is identified with its parameters.
\<close>

record url_params =
  q_orderBy :: "string option"
  q_orderDirection :: string
  q_limit :: int
  q_offset :: "int option"
  q_cursor :: "string option"
  q_listedAfter :: "int option"
  q_listedBefore :: "int option"

record request =
  url :: url_params
  headers :: "(string \<times> string) list"
  timeout :: nat

text \<open>The fields of \<open>config\<close> the offset-mode job reads.\<close>

record config =
  chainId :: int
  backfillOpenseaApiKey :: string
  realtimeOpenseaApiKey :: string

text \<open>
  The variables every loop has: its \<open>done\<close> flag, the number of iterations started so
  far (the index at which the collaborators are asked) and the trace of effects.
\<close>

record 'e loop_state =
  done_flag :: bool            \<comment> \<open>\<open>done\<close>\<close>
  iter :: nat
  trace :: "'e list"

text \<open>
  \<open>addToRelayOrdersQueue(parsedOrders.map(...), true)\<close>, skipped for an empty batch.
\<close>

definition relay ::
  "('req, 'resp, 'ord, 'p, 'd) world \<Rightarrow> nat \<Rightarrow> string \<Rightarrow> 'p sdk_order list
     \<Rightarrow> ('req, 'resp, 'p envelope, 'd row) event list
     \<Rightarrow> error option \<times> ('req, 'resp, 'p envelope, 'd row) event list" where
  "relay w k kd parsedOrders tr =
     (if parsedOrders \<noteq> []
      then (let batch = map (\<lambda>order. \<lparr>kind = kd, env_data = params order\<rparr>) parsedOrders
            in (enqueue w k batch True, tr @ [EvEnqueue batch True (enqueue w k batch True)]))
      else (None, tr))"

subsection \<open>The offset-mode loop\<close>

text \<open>The parameters of \<open>fetchOrders\<close> that the loop only reads.\<close>

record sync_args =
  listedAfter :: int
  listedBefore :: int
  backfill :: bool
  once :: bool
  limit :: int

record 'e opensea_state = "'e loop_state" +
  offset :: int
  numOrders :: nat
  lastCreatedDate :: string

type_synonym opensea_event =
  "(request, OpenSeaOrder list, wyvern_params envelope, OpenSeaOrder row) event"

type_synonym opensea_world =
  "(request, OpenSeaOrder list, OpenSeaOrder, wyvern_params, OpenSeaOrder) world"

definition maxOrdersToFetch :: nat where
  "maxOrdersToFetch = 1000"

text \<open>
  Lines 28 to 49: the URL parameters and the \<open>axios\<close> options. \<open>t\<close> is
  \<open>Math.floor(Date.now() / 1000)\<close>.
\<close>

definition opensea_request :: "config \<Rightarrow> sync_args \<Rightarrow> int \<Rightarrow> int \<Rightarrow> request" where
  "opensea_request cfg a t off =
     \<lparr>url =
        \<lparr>q_orderBy = None,
         q_orderDirection = ''desc'',
         q_limit = limit a,
         q_offset = Some off,
         q_cursor = None,
         q_listedAfter = (if once a then None else Some (listedAfter a)),
         q_listedBefore = Some (if once a then t else listedBefore a)\<rparr>,
      headers =
        (if chainId cfg = 1
         then [(''x-api-key'',
                if backfill a then backfillOpenseaApiKey cfg else realtimeOpenseaApiKey cfg)]
         else []),
      timeout = 10000\<rparr>"

text \<open>The request of the iteration that starts in state \<open>st\<close>.\<close>

definition opensea_next_request ::
  "opensea_world \<Rightarrow> config \<Rightarrow> sync_args \<Rightarrow> 'e opensea_state \<Rightarrow> request" where
  "opensea_next_request w cfg a st = opensea_request cfg a (now w (iter st)) (offset st)"

text \<open>
  Lines 117 to 141, after the page has been handled, queued and stored: the counters,
  the stop conditions in the order of the source, the last creation date and the delay.
\<close>

definition opensea_advance ::
  "sync_args \<Rightarrow> OpenSeaOrder list \<Rightarrow> opensea_event opensea_state
     \<Rightarrow> opensea_event opensea_state" where
  "opensea_advance a orders st =
     (let numOrders1 = numOrders st + length orders;
          (done1, offset1) =
            (if once a then (True, offset st)
             else if int (length orders) < limit a then (True, offset st)
             else (done_flag st, offset st + limit a));
          done2 = (if \<not> backfill a \<and> numOrders1 \<ge> maxOrdersToFetch then True else done1);
          lastCreatedDate1 =
            (if orders \<noteq> [] then created_date (last orders) else lastCreatedDate st);
          trace1 = (if \<not> once a then trace st @ [EvSleep 1000] else trace st)
      in st\<lparr>done_flag := done2, trace := trace1, offset := offset1, numOrders := numOrders1,
             lastCreatedDate := lastCreatedDate1\<rparr>)"

text \<open>
  One pass through the body of \<open>while (!done)\<close>, lines 28 to 141. The first component is
  the error the \<open>try\<close> block threw, if any; the variables of the state are then as the
  \<open>catch\<close> block finds them.
\<close>

definition opensea_page ::
  "opensea_world \<Rightarrow> config \<Rightarrow> sync_args \<Rightarrow> opensea_event opensea_state
     \<Rightarrow> error option \<times> opensea_event opensea_state" where
  "opensea_page w cfg a st =
     (let k = iter st;
          req = opensea_next_request w cfg a st;
          response = fetch w k req;
          st1 = st\<lparr>iter := k + 1, trace := trace st @ [EvFetch req response]\<rparr>
      in case response of
           Inl e \<Rightarrow> (Some e, st1)
         | Inr orders \<Rightarrow>
             (case handleAll (opensea_handleOrder (parse w) (once a)) orders of
                Inl e \<Rightarrow> (Some e, st1)
              | Inr (parsedOrders, values) \<Rightarrow>
                  (case relay w k ''wyvern-v2.3'' parsedOrders (trace st1) of
                     (Some e, tr2) \<Rightarrow> (Some e, st1\<lparr>trace := tr2\<rparr>)
                   | (None, tr2) \<Rightarrow>
                       (if values \<noteq> []
                        then (case insert_rows w k values of
                                Inl e \<Rightarrow>
                                  (Some e, st1\<lparr>trace := tr2 @ [EvInsert values (Inl e)]\<rparr>)
                              | Inr result \<Rightarrow>
                                  (None, opensea_advance a orders
                                     (st1\<lparr>trace := tr2 @ [EvInsert values (Inr result)]\<rparr>)))
                        else (None, opensea_advance a orders (st1\<lparr>trace := tr2\<rparr>))))))"

text \<open>
  The \<open>while\<close> loop with its \<open>catch\<close> block, lines 27 to 160. The fuel bounds the number
  of pages; a loop that has not stopped by then yields \<open>OutOfFuel\<close>.
\<close>

fun opensea_loop ::
  "nat \<Rightarrow> opensea_world \<Rightarrow> config \<Rightarrow> sync_args \<Rightarrow> opensea_event opensea_state
     \<Rightarrow> string outcome \<times> opensea_event opensea_state" where
  "opensea_loop 0 w cfg a st =
     (if done_flag st then (Returned (lastCreatedDate st), st) else (OutOfFuel, st))"
| "opensea_loop (Suc n) w cfg a st =
     (if done_flag st then (Returned (lastCreatedDate st), st)
      else (case opensea_page w cfg a st of
              (Some e, st') \<Rightarrow>
                (if \<not> backfill a then (Returned (lastCreatedDate st'), st')
                 else (Raised e, st'))
            | (None, st') \<Rightarrow> opensea_loop n w cfg a st'))"

text \<open>Lines 21 to 26: the variables before the first iteration.\<close>

definition opensea_init :: "int \<Rightarrow> opensea_event opensea_state" where
  "opensea_init off =
     \<lparr>done_flag = False, iter = 0, trace = [], offset = off, numOrders = 0,
      lastCreatedDate = []\<rparr>"

text \<open>
  \<open>fetchOrders(listedAfter, listedBefore, backfill, once, offset, limit)\<close>. The defaults
  of the parameters (\<open>listedBefore = 0\<close>, \<open>backfill = false\<close>, \<open>once = false\<close>,
  \<open>offset = 0\<close>, \<open>limit = 50\<close>) are the caller's to fill in.
\<close>

definition opensea_fetchOrders ::
  "nat \<Rightarrow> opensea_world \<Rightarrow> config \<Rightarrow> sync_args \<Rightarrow> int
     \<Rightarrow> string outcome \<times> opensea_event opensea_state" where
  "opensea_fetchOrders fuel w cfg a off = opensea_loop fuel w cfg a (opensea_init off)"

subsection \<open>The cursor-mode functions\<close>

record seaport_response =
  orders :: "SeaportOrder list"    \<comment> \<open>\<open>response.data.orders\<close>\<close>
  next_cursor :: "string option"   \<comment> \<open>\<open>response.data.next\<close>\<close>

record 'e seaport_state = "'e loop_state" +
  cursor :: "string option"

type_synonym 'p seaport_event =
  "(request, seaport_response, 'p envelope, protocol_data row) event"

type_synonym 'p seaport_world =
  "(request, seaport_response, SeaportOrder, 'p, protocol_data) world"

definition seaport_limit :: int where
  "seaport_limit = 50"

definition user_agent :: string where
  "user_agent =
     ''Mozilla/5.0 (X11; Fedora; Linux x86_64; rv:89.0) Gecko/20100101 Firefox/89.0''"

text \<open>
  The request of both cursor-mode functions: \<open>fetchOrders\<close> passes no time bounds (lines
  21 to 35), \<open>fetchAllOrders\<close> passes its two timestamps as they are (lines 130 to 146).
\<close>

definition seaport_request :: "string option \<Rightarrow> int option \<Rightarrow> int option \<Rightarrow> request" where
  "seaport_request cur la lb =
     \<lparr>url =
        \<lparr>q_orderBy = Some ''created_date'',
         q_orderDirection = ''desc'',
         q_limit = seaport_limit,
         q_offset = None,
         q_cursor = cur,
         q_listedAfter = la,
         q_listedBefore = lb\<rparr>,
      headers = [(''user-agent'', user_agent)],
      timeout = 20000\<rparr>"

text \<open>One pass through the body of the loop of \<open>fetchOrders\<close>, lines 21 to 99.\<close>

definition seaport_page ::
  "'p seaport_world \<Rightarrow> 'p seaport_event seaport_state
     \<Rightarrow> error option \<times> 'p seaport_event seaport_state" where
  "seaport_page w st =
     (let k = iter st;
          req = seaport_request (cursor st) None None;
          response = fetch w k req;
          st1 = st\<lparr>iter := k + 1, trace := trace st @ [EvFetch req response]\<rparr>
      in case response of
           Inl e \<Rightarrow> (Some e, st1)
         | Inr r \<Rightarrow>
             (let st2 = st1\<lparr>cursor := next_cursor r\<rparr>
              in case handleAll (fetchOrders_handleOrder (parse w)) (orders r) of
                   Inl e \<Rightarrow> (Some e, st2)
                 | Inr (parsedOrders, values) \<Rightarrow>
                     (if values \<noteq> []
                      then (case insert_rows w k values of
                              Inl e \<Rightarrow>
                                (Some e, st2\<lparr>trace := trace st2 @ [EvInsert values (Inl e)]\<rparr>)
                            | Inr result \<Rightarrow>
                                (let st3 = st2\<lparr>done_flag := (if result = 0 then True else done_flag st2),
                                               trace := trace st2 @ [EvInsert values (Inr result)]\<rparr>
                                 in case relay w k ''seaport'' parsedOrders (trace st3) of
                                      (err, tr) \<Rightarrow> (err, st3\<lparr>trace := tr\<rparr>)))
                      else (case relay w k ''seaport'' parsedOrders (trace st2) of
                              (err, tr) \<Rightarrow> (err, st2\<lparr>trace := tr\<rparr>)))))"

text \<open>
  The loop of \<open>fetchOrders\<close>, lines 20 to 103: the \<open>catch\<close> block rethrows, and the
  function returns nothing once the loop is left.
\<close>

fun seaport_loop ::
  "nat \<Rightarrow> 'p seaport_world \<Rightarrow> 'p seaport_event seaport_state
     \<Rightarrow> unit outcome \<times> 'p seaport_event seaport_state" where
  "seaport_loop 0 w st = (if done_flag st then (Returned (), st) else (OutOfFuel, st))"
| "seaport_loop (Suc n) w st =
     (if done_flag st then (Returned (), st)
      else (case seaport_page w st of
              (Some e, st') \<Rightarrow> (Raised e, st')
            | (None, st') \<Rightarrow> seaport_loop n w st'))"

definition seaport_init :: "'p seaport_event seaport_state" where
  "seaport_init = \<lparr>done_flag = False, iter = 0, trace = [], cursor = None\<rparr>"

text \<open>\<open>fetchOrders()\<close> of the cursor-mode job.\<close>

definition seaport_fetchOrders ::
  "nat \<Rightarrow> 'p seaport_world \<Rightarrow> unit outcome \<times> 'p seaport_event seaport_state" where
  "seaport_fetchOrders fuel w = seaport_loop fuel w seaport_init"

text \<open>
  \<open>fetchAllOrders(fromTimestamp, toTimestamp, cursor)\<close>, lines 106 to 213: straight-line
  code, no loop. The result is the outcome and the trace of effects.

  Lines 111 to 120 come first: a time bound that is truthy (neither \<open>null\<close> nor \<open>0\<close>) is
  formatted for the log line with \<open>format(fromUnixTime(ts), ...)\<close>. \<open>fromUnixTime\<close> builds
  \<open>new Date(ts * 1000)\<close>, which is an invalid date once the number of milliseconds is beyond
  8.64e15 on either side, and \<open>format\<close> throws a \<open>RangeError\<close> on an invalid date. This is
  outside the \<open>try\<close> block and before the request, so the call rejects with no fetch made.
  The text itself only goes to the log, which is not modelled.
\<close>

definition max_date_ms :: int where
  "max_date_ms = 8640000000000000"

definition format_fromUnixTime :: "int \<Rightarrow> error + unit" where
  "format_fromUnixTime ts =
     (if \<bar>ts * 1000\<bar> \<le> max_date_ms then Inr () else Inl RangeError)"

definition format_bound :: "int option \<Rightarrow> error + unit" where
  "format_bound ts =
     (case ts of
        None \<Rightarrow> Inr ()
      | Some t \<Rightarrow> if t \<noteq> 0 then format_fromUnixTime t else Inr ())"

text \<open>The \<open>try\<close> block, lines 128 to 212.\<close>

definition fetchAllOrders_try ::
  "'p seaport_world \<Rightarrow> int option \<Rightarrow> int option \<Rightarrow> string option
     \<Rightarrow> string option outcome \<times> 'p seaport_event list" where
  "fetchAllOrders_try w fromTimestamp toTimestamp cur =
     (let req = seaport_request cur fromTimestamp toTimestamp;
          response = fetch w 0 req;
          tr1 = [EvFetch req response]
      in case response of
           Inl e \<Rightarrow> (Raised e, tr1)
         | Inr r \<Rightarrow>
             (case handleAll (fetchAllOrders_handleOrder (parse w)) (orders r) of
                Inl e \<Rightarrow> (Raised e, tr1)
              | Inr (parsedOrders, values) \<Rightarrow>
                  (if values \<noteq> []
                   then (case insert_rows w 0 values of
                           Inl e \<Rightarrow> (Raised e, tr1 @ [EvInsert values (Inl e)])
                         | Inr result \<Rightarrow>
                             (case relay w 0 ''seaport'' parsedOrders
                                     (tr1 @ [EvInsert values (Inr result)]) of
                                (Some e, tr) \<Rightarrow> (Raised e, tr)
                              | (None, tr) \<Rightarrow> (Returned (next_cursor r), tr)))
                   else (case relay w 0 ''seaport'' parsedOrders tr1 of
                           (Some e, tr) \<Rightarrow> (Raised e, tr)
                         | (None, tr) \<Rightarrow> (Returned (next_cursor r), tr)))))"

definition fetchAllOrders ::
  "'p seaport_world \<Rightarrow> int option \<Rightarrow> int option \<Rightarrow> string option
     \<Rightarrow> string option outcome \<times> 'p seaport_event list" where
  "fetchAllOrders w fromTimestamp toTimestamp cur =
     (case format_bound fromTimestamp of
        Inl e \<Rightarrow> (Raised e, [])
      | Inr u \<Rightarrow>
          (case format_bound toTimestamp of
             Inl e \<Rightarrow> (Raised e, [])
           | Inr u' \<Rightarrow> fetchAllOrders_try w fromTimestamp toTimestamp cur))"

subsection \<open>Reading a trace\<close>


text \<open>The rows the trace shows as handed to the store, oldest first.\<close>

fun inserted_rows :: "('req, 'resp, 'env, 'row) event list \<Rightarrow> 'row list" where
  "inserted_rows [] = []"
| "inserted_rows (EvInsert vs res # tr) = vs @ inserted_rows tr"
| "inserted_rows (e # tr) = inserted_rows tr"

text \<open>The answers of the store the trace shows, oldest first.\<close>

fun insert_results :: "('req, 'resp, 'env, 'row) event list \<Rightarrow> (error + nat) list" where
  "insert_results [] = []"
| "insert_results (EvInsert vs res # tr) = res # insert_results tr"
| "insert_results (e # tr) = insert_results tr"


text \<open>Every fetch but the first event of the trace directly follows a delay of one second.\<close>

fun delayed_fetches :: "('req, 'resp, 'env, 'row) event list \<Rightarrow> bool" where
  "delayed_fetches [] = True"
| "delayed_fetches [e] = True"
| "delayed_fetches (e # f # tr) =
     ((is_fetch f \<longrightarrow> e = EvSleep 1000) \<and> delayed_fetches (f # tr))"

text \<open>A stretch of a trace with neither a fetch nor a delay in it.\<close>

definition quiet :: "('req, 'resp, 'env, 'row) event list \<Rightarrow> bool" where
  "quiet tr = (\<forall>e\<in>set tr. \<not> is_fetch e \<and> \<not> is_sleep e)"


subsection \<open>The target a row is meant to have\<close>




subsection \<open>Concrete runs\<close>

definition ex_order :: OpenSeaOrder where
  "ex_order =
     \<lparr>prefixed_hash = ''0xAB12'', order_target = ''0xCAFE01'', maker_address = ''0xBEEF02'',
      created_date = ''2022-05-01T10:00:00'', asset = Some ''image'', nonce = None\<rparr>"


definition ex_config :: config where
  "ex_config = \<lparr>chainId = 1, backfillOpenseaApiKey = ''key-b'', realtimeOpenseaApiKey = ''key-r''\<rparr>"



definition ex_backfill_args :: sync_args where
  "ex_backfill_args =
     \<lparr>listedAfter = 1651300000, listedBefore = 1651400000, backfill = True, once = False, limit = 50\<rparr>"

definition ex_world_pages :: opensea_world where
  "ex_world_pages =
     \<lparr>now = (\<lambda>k. 1651400000 + int k),
      fetch = (\<lambda>k req. if k = 0 then Inr (replicate 50 ex_order) else Inr (replicate 49 ex_order)),
      parse = (\<lambda>order. Inr None),
      enqueue = (\<lambda>k batch d. None),
      insert_rows = (\<lambda>k vs. Inr (length vs))\<rparr>"

definition ex_realtime_args :: sync_args where
  "ex_realtime_args =
     \<lparr>listedAfter = 1651300000, listedBefore = 0, backfill = False, once = False, limit = 50\<rparr>"

definition ex_world_full :: opensea_world where
  "ex_world_full =
     \<lparr>now = (\<lambda>k. 1651400000 + int k),
      fetch = (\<lambda>k req. Inr (replicate 50 ex_order)),
      parse = (\<lambda>order. Inr None),
      enqueue = (\<lambda>k batch d. None),
      insert_rows = (\<lambda>k vs. Inr (length vs))\<rparr>"

definition ex_once_args :: sync_args where
  "ex_once_args =
     \<lparr>listedAfter = 1651300000, listedBefore = 0, backfill = False, once = True, limit = 50\<rparr>"

definition ex_seaport_order :: SeaportOrder where
  "ex_seaport_order =
     \<lparr>order_hash = ''0xAbCd'', seaport_maker_address = ''0xBEEF02'',
      seaport_created_date = ''2022-06-20T12:00:00'',
      protocol_data = \<lparr>offer = [\<lparr>token = ''0xC0FFEE''\<rparr>], parameters_rest = ''consideration''\<rparr>\<rparr>"

definition ex_seaport_page :: seaport_response where
  "ex_seaport_page = \<lparr>orders = [ex_seaport_order], next_cursor = Some ''cursor-1''\<rparr>"

definition ex_seaport_dup :: "string seaport_world" where
  "ex_seaport_dup =
     \<lparr>now = (\<lambda>k. 1655700000 + int k),
      fetch = (\<lambda>k req. Inr ex_seaport_page),
      parse = (\<lambda>order. Inr None),
      enqueue = (\<lambda>k batch d. None),
      insert_rows = (\<lambda>k vs. if k = 0 then Inr (length vs) else Inr 0)\<rparr>"

definition ex_seaport_fail :: "string seaport_world" where
  "ex_seaport_fail =
     \<lparr>now = (\<lambda>k. 1655700000 + int k),
      fetch = (\<lambda>k req. if k = 0 then Inr ex_seaport_page else Inl (Rejected ''timeout'')),
      parse = (\<lambda>order. Inr None),
      enqueue = (\<lambda>k batch d. None),
      insert_rows = (\<lambda>k vs. Inr (length vs))\<rparr>"

definition ex_seaport_empty :: "string seaport_world" where
  "ex_seaport_empty =
     \<lparr>now = (\<lambda>k. 1655700000 + int k),
      fetch = (\<lambda>k req. Inr \<lparr>orders = [], next_cursor = None\<rparr>),
      parse = (\<lambda>order. Inr None),
      enqueue = (\<lambda>k batch d. None),
      insert_rows = (\<lambda>k vs. Inr (length vs))\<rparr>"

definition ex_seaport_window :: "string seaport_world" where
  "ex_seaport_window =
     \<lparr>now = (\<lambda>k. 1655700000 + int k),
      fetch = (\<lambda>k req. if q_listedAfter (url req) = Some 1655000000
                          \<and> q_listedBefore (url req) = Some 1655600000
                          \<and> q_cursor (url req) = Some ''cursor-0''
                        then Inr ex_seaport_page else Inl (Rejected ''bad request'')),
      parse = (\<lambda>order. Inr None),
      enqueue = (\<lambda>k batch d. None),
      insert_rows = (\<lambda>k vs. Inr (length vs))\<rparr>"



definition ex_seaport_parsed :: "string sdk_order" where
  "ex_seaport_parsed = \<lparr>params = ''parameters'', getInfo = Some \<lparr>contract = ''0xDadA''\<rparr>\<rparr>"

definition ex_seaport_parsing :: "string seaport_world" where
  "ex_seaport_parsing =
     \<lparr>now = (\<lambda>k. 1655700000 + int k),
      fetch = (\<lambda>k req. Inr ex_seaport_page),
      parse = (\<lambda>order. Inr (Some ex_seaport_parsed)),
      enqueue = (\<lambda>k batch d. None),
      insert_rows = (\<lambda>k vs. Inr (length vs))\<rparr>"

text \<open>
  Every order of the page is parsed and already stored, and the relay queue is down.
\<close>

definition ex_seaport_queue_down :: "string seaport_world" where
  "ex_seaport_queue_down =
     \<lparr>now = (\<lambda>k. 1655700000 + int k),
      fetch = (\<lambda>k req. Inr ex_seaport_page),
      parse = (\<lambda>order. Inr (Some ex_seaport_parsed)),
      enqueue = (\<lambda>k batch d. Some (Rejected ''queue down'')),
      insert_rows = (\<lambda>k vs. Inr 0)\<rparr>"

section \<open>Properties\<close>

subsection \<open>Lower-casing\<close>

lemma toLowerCase_Nil_iff: "toLowerCase s = [] \<longleftrightarrow> s = []"
  by (simp add: toLowerCase_def)


subsection \<open>The relay step\<close>

lemma relay_quiet: "relay w k kd ps [] = (err, tr) \<Longrightarrow> quiet tr"
  by (auto simp: relay_def Let_def quiet_def split: if_splits)

lemma relay_append: "relay w k kd ps [] = (err, ext) \<Longrightarrow> relay w k kd ps tr = (err, tr @ ext)"
  by (auto simp: relay_def Let_def split: if_splits)

lemma relay_no_insert: "relay w k kd ps [] = (err, tr) \<Longrightarrow> filter is_insert tr = []"
  by (auto simp: relay_def Let_def split: if_splits)

lemma quiet_fetches: "quiet tr \<Longrightarrow> filter is_fetch tr = []"
  by (induction tr) (auto simp: quiet_def)

lemma quiet_sleeps: "quiet tr \<Longrightarrow> filter is_sleep tr = []"
  by (induction tr) (auto simp: quiet_def)


lemma inserted_rows_append: "inserted_rows (xs @ ys) = inserted_rows xs @ inserted_rows ys"
  by (induction xs rule: inserted_rows.induct) simp_all

lemma relay_no_rows: "relay w k kd ps [] = (err, tr) \<Longrightarrow> inserted_rows tr = []"
  by (auto simp: relay_def Let_def split: if_splits)

subsection \<open>One page of the offset-mode loop\<close>

text \<open>
  A page either throws, leaving the variables of the loop as they were, or it went
  through to the end of the \<open>try\<close> block. Between the fetch and the end of the page the
  trace holds neither a fetch nor a delay, and the rows it shows as handed to the store
  are rows the handlers built from the page fetched.
\<close>

lemma opensea_page_elim:
  fixes w :: opensea_world
  assumes err: "\<And>e rest. \<lbrakk>opensea_page w cfg a st =
            (Some e, st\<lparr>iter := iter st + 1,
                        trace := trace st @ EvFetch (opensea_next_request w cfg a st)
                          (fetch w (iter st) (opensea_next_request w cfg a st)) # rest\<rparr>);
            quiet rest;
            \<forall>row\<in>set (inserted_rows rest). \<exists>os ps vs.
               fetch w (iter st) (opensea_next_request w cfg a st) = Inr os \<and>
               handleAll (opensea_handleOrder (parse w) (once a)) os = Inr (ps, vs) \<and>
               row \<in> set vs\<rbrakk> \<Longrightarrow> P"
    and ok: "\<And>os rest. \<lbrakk>fetch w (iter st) (opensea_next_request w cfg a st) = Inr os;
            opensea_page w cfg a st =
            (None, opensea_advance a os (st\<lparr>iter := iter st + 1,
                        trace := trace st @ EvFetch (opensea_next_request w cfg a st) (Inr os) # rest\<rparr>));
            quiet rest;
            \<forall>row\<in>set (inserted_rows rest). \<exists>ps vs.
               handleAll (opensea_handleOrder (parse w) (once a)) os = Inr (ps, vs) \<and>
               row \<in> set vs\<rbrakk> \<Longrightarrow> P"
  shows P
proof (cases "fetch w (iter st) (opensea_next_request w cfg a st)")
  case (Inl e)
  then have "opensea_page w cfg a st =
      (Some e, st\<lparr>iter := iter st + 1,
                  trace := trace st @ EvFetch (opensea_next_request w cfg a st)
                     (fetch w (iter st) (opensea_next_request w cfg a st)) # []\<rparr>)"
    by (simp add: opensea_page_def Let_def)
  then show P by (rule err) (simp_all add: quiet_def)
next
  case (Inr os)
  note fetched = this
  show P
  proof (cases "handleAll (opensea_handleOrder (parse w) (once a)) os")
    case (Inl e)
    with fetched have "opensea_page w cfg a st =
      (Some e, st\<lparr>iter := iter st + 1,
                  trace := trace st @ EvFetch (opensea_next_request w cfg a st)
                     (fetch w (iter st) (opensea_next_request w cfg a st)) # []\<rparr>)"
      by (simp add: opensea_page_def Let_def)
    then show P by (rule err) (simp_all add: quiet_def)
  next
    case (Inr pv)
    then obtain ps vs where
      handled: "handleAll (opensea_handleOrder (parse w) (once a)) os = Inr (ps, vs)"
      by (cases pv) simp
    obtain qerr qtr where q: "relay w (iter st) ''wyvern-v2.3'' ps [] = (qerr, qtr)"
      by (cases "relay w (iter st) ''wyvern-v2.3'' ps []") blast
    have qq: "quiet qtr" using q by (rule relay_quiet)
    have qr: "inserted_rows qtr = []" using q by (rule relay_no_rows)
    have q': "\<And>tr. relay w (iter st) ''wyvern-v2.3'' ps tr = (qerr, tr @ qtr)"
      using q by (rule relay_append)
    show P
    proof (cases qerr)
      case (Some e)
      with fetched handled q' have "opensea_page w cfg a st =
        (Some e, st\<lparr>iter := iter st + 1,
                  trace := trace st @ EvFetch (opensea_next_request w cfg a st)
                     (fetch w (iter st) (opensea_next_request w cfg a st)) # qtr\<rparr>)"
        by (simp add: opensea_page_def Let_def)
      then show P by (rule err) (use qq qr in simp_all)
    next
      case None
      note queued = this
      show P
      proof (cases "vs = []")
        case True
        with fetched handled q' queued have "opensea_page w cfg a st =
          (None, opensea_advance a os (st\<lparr>iter := iter st + 1,
             trace := trace st @ EvFetch (opensea_next_request w cfg a st) (Inr os) # qtr\<rparr>))"
          by (simp add: opensea_page_def Let_def)
        with fetched show P by (rule ok) (use qq qr in simp_all)
      next
        case False
        note nonempty = this
        have qi: "\<And>x. quiet (qtr @ [EvInsert vs x])" using qq by (simp add: quiet_def)
        show P
        proof (cases "insert_rows w (iter st) vs")
          case (Inl e)
          with fetched handled q' queued nonempty have "opensea_page w cfg a st =
            (Some e, st\<lparr>iter := iter st + 1,
                  trace := trace st @ EvFetch (opensea_next_request w cfg a st)
                     (fetch w (iter st) (opensea_next_request w cfg a st))
                       # (qtr @ [EvInsert vs (Inl e)])\<rparr>)"
            by (simp add: opensea_page_def Let_def)
          then show P
            by (rule err) (use qi qr fetched handled in \<open>simp_all add: inserted_rows_append\<close>)
        next
          case (Inr n)
          with fetched handled q' queued nonempty have "opensea_page w cfg a st =
            (None, opensea_advance a os (st\<lparr>iter := iter st + 1,
               trace := trace st @ EvFetch (opensea_next_request w cfg a st) (Inr os)
                          # (qtr @ [EvInsert vs (Inr n)])\<rparr>))"
            by (simp add: opensea_page_def Let_def)
          with fetched show P
            by (rule ok) (use qi qr handled in \<open>simp_all add: inserted_rows_append\<close>)
        qed
      qed
    qed
  qed
qed

lemma opensea_page_error_vars:
  fixes w :: opensea_world
  assumes "fst (opensea_page w cfg a st) = Some e"
  shows "lastCreatedDate (snd (opensea_page w cfg a st)) = lastCreatedDate st"
proof (rule opensea_page_elim [of w cfg a st])
  fix e' rest
  assume "opensea_page w cfg a st =
            (Some e', st\<lparr>iter := iter st + 1,
                        trace := trace st @ EvFetch (opensea_next_request w cfg a st)
                          (fetch w (iter st) (opensea_next_request w cfg a st)) # rest\<rparr>)"
  then show ?thesis by simp
next
  fix os rest
  assume "opensea_page w cfg a st =
            (None, opensea_advance a os (st\<lparr>iter := iter st + 1,
                        trace := trace st @ EvFetch (opensea_next_request w cfg a st) (Inr os) # rest\<rparr>))"
  with assms show ?thesis by simp
qed

subsection \<open>The offset-mode loop\<close>

lemma opensea_loop_done:
  "done_flag st \<Longrightarrow> opensea_loop n w cfg a st = (Returned (lastCreatedDate st), st)"
  by (cases n) simp_all

lemma opensea_loop_error:
  fixes w :: opensea_world
  assumes "\<not> done_flag st" and "fst (opensea_page w cfg a st) = Some e"
  shows "opensea_loop (Suc n) w cfg a st =
           (if backfill a then Raised e else Returned (lastCreatedDate st),
            snd (opensea_page w cfg a st))"
  using assms opensea_page_error_vars [OF assms(2)]
  by (cases "opensea_page w cfg a st") auto

lemma opensea_loop_ok:
  assumes "\<not> done_flag st" and "fst (opensea_page w cfg a st) = None"
  shows "opensea_loop (Suc n) w cfg a st = opensea_loop n w cfg a (snd (opensea_page w cfg a st))"
  using assms by (cases "opensea_page w cfg a st") auto

declare opensea_loop.simps(2) [simp del]







subsection \<open>Claims about the offset-mode loop\<close>




subsection \<open>Counting along the offset-mode loop\<close>

lemma opensea_advance_vars:
  "done_flag (opensea_advance a os st) =
     (once a \<or> int (length os) < limit a \<or> done_flag st \<or>
      (\<not> backfill a \<and> maxOrdersToFetch \<le> numOrders st + length os))"
  "offset (opensea_advance a os st) =
     (if \<not> once a \<and> \<not> int (length os) < limit a then offset st + limit a else offset st)"
  "numOrders (opensea_advance a os st) = numOrders st + length os"
  "lastCreatedDate (opensea_advance a os st) =
     (if os \<noteq> [] then created_date (last os) else lastCreatedDate st)"
  "iter (opensea_advance a os st) = iter st"
  "trace (opensea_advance a os st) = (if \<not> once a then trace st @ [EvSleep 1000] else trace st)"
  by (auto simp: opensea_advance_def Let_def)

lemma opensea_page_fetches:
  fixes w :: opensea_world
  shows "fetches (trace (snd (opensea_page w cfg a st))) = fetches (trace st) + 1"
  by (rule opensea_page_elim [of w cfg a st])
     (simp_all add: fetches_def quiet_fetches opensea_advance_vars)

lemma opensea_page_sleeps:
  fixes w :: opensea_world
  shows "sleeps (trace (snd (opensea_page w cfg a st))) =
           sleeps (trace st) + (if fst (opensea_page w cfg a st) = None \<and> \<not> once a then 1 else 0)"
  by (rule opensea_page_elim [of w cfg a st])
     (simp_all add: sleeps_def quiet_sleeps opensea_advance_vars)

lemma opensea_page_ok_vars:
  fixes w :: opensea_world
  assumes "fst (opensea_page w cfg a st) = None"
    and "fetch w (iter st) (opensea_next_request w cfg a st) = Inr os"
  shows "done_flag (snd (opensea_page w cfg a st)) = done_flag (opensea_advance a os st)"
    and "offset (snd (opensea_page w cfg a st)) = offset (opensea_advance a os st)"
    and "numOrders (snd (opensea_page w cfg a st)) = numOrders (opensea_advance a os st)"
    and "lastCreatedDate (snd (opensea_page w cfg a st)) = lastCreatedDate (opensea_advance a os st)"
    and "iter (snd (opensea_page w cfg a st)) = iter st + 1"
  using assms
  by (rule_tac [!] opensea_page_elim [of w cfg a st]) (simp_all add: opensea_advance_vars)

lemma opensea_page_fetched:
  fixes w :: opensea_world
  assumes "fst (opensea_page w cfg a st) = None"
  obtains os where "fetch w (iter st) (opensea_next_request w cfg a st) = Inr os"
  using assms by (rule_tac opensea_page_elim [of w cfg a st]) simp_all

lemma opensea_loop_fetches:
  fixes w :: opensea_world
  shows "fetches (trace st) \<le> fetches (trace (snd (opensea_loop n w cfg a st))) \<and>
         fetches (trace (snd (opensea_loop n w cfg a st))) \<le> fetches (trace st) + n"
proof (induction n arbitrary: st)
  case 0
  show ?case by simp
next
  case (Suc n)
  show ?case
  proof (cases "done_flag st")
    case True
    then show ?thesis by (simp add: opensea_loop_done)
  next
    case False
    note nd = this
    show ?thesis
    proof (cases "fst (opensea_page w cfg a st)")
      case None
      with nd Suc [of "snd (opensea_page w cfg a st)"] show ?thesis
        by (simp add: opensea_loop_ok opensea_page_fetches)
    next
      case (Some e)
      with nd show ?thesis by (simp add: opensea_loop_error opensea_page_fetches)
    qed
  qed
qed

lemma opensea_loop_first_fetch:
  fixes w :: opensea_world
  assumes "\<not> done_flag st"
  shows "fetches (trace st) + 1 \<le> fetches (trace (snd (opensea_loop (Suc n) w cfg a st)))"
proof (cases "fst (opensea_page w cfg a st)")
  case None
  with assms opensea_loop_fetches [of "snd (opensea_page w cfg a st)" n w cfg a] show ?thesis
    by (simp add: opensea_loop_ok opensea_page_fetches)
next
  case (Some e)
  with assms show ?thesis by (simp add: opensea_loop_error opensea_page_fetches)
qed

text \<open>
  Claim C3, page size 50. When the fetch of a page answers with 49 orders the loop ends
  with that page: no further fetch is made, and the creation date of the 49th order is
  returned if nothing in the page throws. When it answers with 50 orders, with
  \<open>once = false\<close> and \<open>backfill = true\<close>, and the page is processed without error, the
  loop goes on from the offset advanced by 50: the next request carries that offset and
  is made as soon as there is fuel for it.
\<close>

theorem offset_stopping:
  fixes w :: opensea_world
  assumes "limit a = 50" and "\<not> done_flag st"
    and "fetch w (iter st) (opensea_next_request w cfg a st) = Inr os"
  shows "(length os = 49 \<longrightarrow>
            fst (opensea_loop (Suc n) w cfg a st) \<noteq> OutOfFuel \<and>
            fetches (trace (snd (opensea_loop (Suc n) w cfg a st))) = fetches (trace st) + 1 \<and>
            (fst (opensea_page w cfg a st) = None \<longrightarrow>
               opensea_loop (Suc n) w cfg a st =
                 (Returned (created_date (last os)), snd (opensea_page w cfg a st)))) \<and>
         (length os = 50 \<and> \<not> once a \<and> backfill a \<and> fst (opensea_page w cfg a st) = None \<longrightarrow>
            opensea_loop (Suc n) w cfg a st =
              opensea_loop n w cfg a (snd (opensea_page w cfg a st)) \<and>
            \<not> done_flag (snd (opensea_page w cfg a st)) \<and>
            offset (snd (opensea_page w cfg a st)) = offset st + 50 \<and>
            q_offset (url (opensea_next_request w cfg a (snd (opensea_page w cfg a st)))) =
              Some (offset st + 50) \<and>
            fetches (trace st) + 2 \<le>
              fetches (trace (snd (opensea_loop (Suc (Suc n)) w cfg a st))))"
proof (intro conjI impI)
  assume len: "length os = 49"
  show "fst (opensea_loop (Suc n) w cfg a st) \<noteq> OutOfFuel"
  proof (cases "fst (opensea_page w cfg a st)")
    case None
    with assms len show ?thesis
      by (simp add: opensea_loop_ok opensea_loop_done opensea_page_ok_vars opensea_advance_vars)
  next
    case (Some e)
    with assms show ?thesis by (simp add: opensea_loop_error)
  qed
  show "fetches (trace (snd (opensea_loop (Suc n) w cfg a st))) = fetches (trace st) + 1"
  proof (cases "fst (opensea_page w cfg a st)")
    case None
    with assms len show ?thesis
      by (simp add: opensea_loop_ok opensea_loop_done opensea_page_ok_vars opensea_advance_vars
            opensea_page_fetches)
  next
    case (Some e)
    with assms show ?thesis by (simp add: opensea_loop_error opensea_page_fetches)
  qed
  assume ok: "fst (opensea_page w cfg a st) = None"
  from len have "os \<noteq> []" by auto
  with assms len ok
  show "opensea_loop (Suc n) w cfg a st =
          (Returned (created_date (last os)), snd (opensea_page w cfg a st))"
    by (simp add: opensea_loop_ok opensea_loop_done opensea_page_ok_vars opensea_advance_vars)
next
  assume h: "length os = 50 \<and> \<not> once a \<and> backfill a \<and> fst (opensea_page w cfg a st) = None"
  then have ok: "fst (opensea_page w cfg a st) = None" by simp
  from assms h show step: "opensea_loop (Suc n) w cfg a st =
      opensea_loop n w cfg a (snd (opensea_page w cfg a st))"
    by (simp add: opensea_loop_ok)
  from assms h show nd: "\<not> done_flag (snd (opensea_page w cfg a st))"
    by (simp add: opensea_page_ok_vars opensea_advance_vars)
  from assms h show off: "offset (snd (opensea_page w cfg a st)) = offset st + 50"
    by (simp add: opensea_page_ok_vars opensea_advance_vars)
  then show "q_offset (url (opensea_next_request w cfg a (snd (opensea_page w cfg a st)))) =
      Some (offset st + 50)"
    by (simp add: opensea_next_request_def opensea_request_def)
  from assms ok have "opensea_loop (Suc (Suc n)) w cfg a st =
      opensea_loop (Suc n) w cfg a (snd (opensea_page w cfg a st))"
    by (simp add: opensea_loop_ok)
  with opensea_loop_first_fetch [OF nd, of n w cfg a]
  show "fetches (trace st) + 2 \<le> fetches (trace (snd (opensea_loop (Suc (Suc n)) w cfg a st)))"
    by (simp add: opensea_page_fetches)
qed

lemma handleAll_unparsed:
  "(\<And>x. x \<in> set xs \<Longrightarrow> ps x = Inr None) \<Longrightarrow>
     \<exists>vs. handleAll (opensea_handleOrder ps b) xs = Inr ([], vs)"
  by (induction xs) (auto simp: opensea_handleOrder_def)

lemma opensea_page_no_error:
  fixes w :: opensea_world
  assumes "fetch w (iter st) (opensea_next_request w cfg a st) = Inr os"
    and "handleAll (opensea_handleOrder (parse w) (once a)) os = Inr (ps, vs)"
    and "\<And>batch. enqueue w (iter st) batch True = None"
    and "insert_rows w (iter st) vs = Inr n"
  shows "fst (opensea_page w cfg a st) = None"
  using assms by (simp add: opensea_page_def relay_def Let_def)

theorem offset_stopping_witness:
  "limit ex_backfill_args = 50 \<and> \<not> done_flag (opensea_init 0) \<and>
   fetch ex_world_pages 0
     (opensea_next_request ex_world_pages ex_config ex_backfill_args (opensea_init 0)) =
     Inr (replicate 50 ex_order) \<and>
   length (replicate 50 ex_order) = 50 \<and> \<not> once ex_backfill_args \<and> backfill ex_backfill_args \<and>
   fst (opensea_page ex_world_pages ex_config ex_backfill_args (opensea_init 0)) = None \<and>
   offset (snd (opensea_page ex_world_pages ex_config ex_backfill_args (opensea_init 0))) = 50 \<and>
   2 \<le> fetches (trace (snd (opensea_loop (Suc (Suc 0)) ex_world_pages ex_config
                                ex_backfill_args (opensea_init 0)))) \<and>
   fetch ex_world_pages 1
     (opensea_next_request ex_world_pages ex_config ex_backfill_args
        (snd (opensea_page ex_world_pages ex_config ex_backfill_args (opensea_init 0)))) =
     Inr (replicate 49 ex_order) \<and>
   length (replicate 49 ex_order) = 49 \<and>
   fst (opensea_loop (Suc 0) ex_world_pages ex_config ex_backfill_args
          (snd (opensea_page ex_world_pages ex_config ex_backfill_args (opensea_init 0)))) \<noteq> OutOfFuel"
proof -
  let ?w = ex_world_pages and ?a = ex_backfill_args and ?c = ex_config
  let ?st = "opensea_init 0 :: opensea_event opensea_state"
  let ?st1 = "snd (opensea_page ?w ?c ?a ?st)"
  have lim: "limit ?a = 50" and flags: "\<not> once ?a" "backfill ?a"
    by (simp_all add: ex_backfill_args_def)
  have nd: "\<not> done_flag ?st" and it: "iter ?st = 0" and tr: "trace ?st = []" and off: "offset ?st = 0"
    by (simp_all add: opensea_init_def)
  have f0: "fetch ?w (iter ?st) (opensea_next_request ?w ?c ?a ?st) = Inr (replicate 50 ex_order)"
    by (simp add: ex_world_pages_def it)
  obtain vs where h0:
    "handleAll (opensea_handleOrder (parse ?w) (once ?a)) (replicate 50 ex_order) = Inr ([], vs)"
    using handleAll_unparsed [of "replicate 50 ex_order" "parse ?w" "once ?a"]
    by (auto simp: ex_world_pages_def)
  have ok0: "fst (opensea_page ?w ?c ?a ?st) = None"
    using f0 h0 by (rule opensea_page_no_error) (simp_all add: ex_world_pages_def)
  have it1: "iter ?st1 = 1" using opensea_page_ok_vars(5) [OF ok0 f0] it by simp
  have nd1: "\<not> done_flag ?st1"
    using opensea_page_ok_vars(1) [OF ok0 f0] nd lim flags by (simp add: opensea_advance_vars)
  have g: "\<And>req. fetch ?w 1 req = Inr (replicate 49 ex_order)"
    by (simp add: ex_world_pages_def)
  have f1: "fetch ?w (iter ?st1) (opensea_next_request ?w ?c ?a ?st1) = Inr (replicate 49 ex_order)"
    unfolding it1 by (rule g)
  from offset_stopping [OF lim nd f0, of 0] ok0 flags off tr
  have A: "offset ?st1 = 50"
    "2 \<le> fetches (trace (snd (opensea_loop (Suc (Suc 0)) ?w ?c ?a ?st)))"
    by (simp_all add: fetches_def)
  from offset_stopping [OF lim nd1 f1, of 0]
  have B: "fst (opensea_loop (Suc 0) ?w ?c ?a ?st1) \<noteq> OutOfFuel" by simp
  show ?thesis using lim nd f0 flags ok0 A B f1 it it1 by simp
qed

subsection \<open>The ceiling of the realtime sync\<close>

lemma opensea_loop_ceiling:
  fixes w :: opensea_world
  assumes "\<not> backfill a" and "0 < limit a"
  shows "(maxOrdersToFetch \<le> numOrders st \<longrightarrow> done_flag st) \<Longrightarrow>
         maxOrdersToFetch \<le> numOrders st + nat (limit a) * n \<Longrightarrow>
         fst (opensea_loop n w cfg a st) \<noteq> OutOfFuel"
proof (induction n arbitrary: st)
  case 0
  then show ?case by (simp add: opensea_loop_done)
next
  case (Suc n)
  show ?case
  proof (cases "done_flag st")
    case True
    then show ?thesis by (simp add: opensea_loop_done)
  next
    case False
    note nd = this
    show ?thesis
    proof (cases "fst (opensea_page w cfg a st)")
      case (Some e)
      with nd show ?thesis by (simp add: opensea_loop_error)
    next
      case None
      then obtain os where f: "fetch w (iter st) (opensea_next_request w cfg a st) = Inr os"
        by (rule opensea_page_fetched)
      let ?st' = "snd (opensea_page w cfg a st)"
      note vars = opensea_page_ok_vars [OF None f]
      show ?thesis
      proof (cases "done_flag ?st'")
        case True
        with nd None show ?thesis by (simp add: opensea_loop_ok opensea_loop_done)
      next
        case False
        with vars(1) have full: "\<not> int (length os) < limit a"
          and below: "\<not> maxOrdersToFetch \<le> numOrders st + length os"
          using assms(1) by (simp_all add: opensea_advance_vars)
        from full assms(2) have "nat (limit a) \<le> length os" by linarith
        from below vars(3) have "maxOrdersToFetch \<le> numOrders ?st' \<longrightarrow> done_flag ?st'"
          by (simp add: opensea_advance_vars)
        moreover from \<open>nat (limit a) \<le> length os\<close> Suc.prems(2) vars(3)
        have "maxOrdersToFetch \<le> numOrders ?st' + nat (limit a) * n"
          by (simp add: opensea_advance_vars)
        ultimately have "fst (opensea_loop n w cfg a ?st') \<noteq> OutOfFuel" by (rule Suc.IH)
        with nd None show ?thesis by (simp add: opensea_loop_ok)
      qed
    qed
  qed
qed

text \<open>
  Claim C4. Without \<open>backfill\<close>, a page that is processed and brings the number of
  orders fetched to the ceiling of 1000 or beyond is the last one: the loop returns
  after it, whatever the size of the page. With a positive page size the ceiling is
  reached within \<open>n\<close> pages as soon as \<open>n\<close> times the page size is at least 1000 (20
  pages of 50), so that a run with that much fuel always comes to its end.
\<close>

theorem realtime_ceiling:
  fixes w :: opensea_world
  assumes "\<not> backfill a"
  shows "(\<not> done_flag st \<and> fst (opensea_page w cfg a st) = None \<and>
          fetch w (iter st) (opensea_next_request w cfg a st) = Inr os \<and>
          maxOrdersToFetch \<le> numOrders st + length os \<longrightarrow>
            opensea_loop (Suc n) w cfg a st =
              (Returned (lastCreatedDate (snd (opensea_page w cfg a st))),
               snd (opensea_page w cfg a st)) \<and>
            fetches (trace (snd (opensea_loop (Suc n) w cfg a st))) = fetches (trace st) + 1) \<and>
         (0 < limit a \<and> maxOrdersToFetch \<le> nat (limit a) * n \<longrightarrow>
            fst (opensea_fetchOrders n w cfg a off) \<noteq> OutOfFuel \<and>
            fetches (trace (snd (opensea_fetchOrders n w cfg a off))) \<le> n)"
proof (intro conjI impI)
  assume h: "\<not> done_flag st \<and> fst (opensea_page w cfg a st) = None \<and>
          fetch w (iter st) (opensea_next_request w cfg a st) = Inr os \<and>
          maxOrdersToFetch \<le> numOrders st + length os"
  then have ok: "fst (opensea_page w cfg a st) = None"
    and f: "fetch w (iter st) (opensea_next_request w cfg a st) = Inr os" by simp_all
  from h assms have d: "done_flag (snd (opensea_page w cfg a st))"
    by (simp add: opensea_page_ok_vars(1) [OF ok f] opensea_advance_vars)
  with h show "opensea_loop (Suc n) w cfg a st =
              (Returned (lastCreatedDate (snd (opensea_page w cfg a st))),
               snd (opensea_page w cfg a st))"
    by (simp add: opensea_loop_ok opensea_loop_done)
  then show "fetches (trace (snd (opensea_loop (Suc n) w cfg a st))) = fetches (trace st) + 1"
    by (simp add: opensea_page_fetches)
next
  assume h: "0 < limit a \<and> maxOrdersToFetch \<le> nat (limit a) * n"
  have "maxOrdersToFetch \<le> numOrders (opensea_init off) \<longrightarrow> done_flag (opensea_init off)"
    by (simp add: opensea_init_def maxOrdersToFetch_def)
  moreover from h have "maxOrdersToFetch \<le> numOrders (opensea_init off) + nat (limit a) * n"
    by (simp add: opensea_init_def)
  ultimately show "fst (opensea_fetchOrders n w cfg a off) \<noteq> OutOfFuel"
    unfolding opensea_fetchOrders_def using assms h by (intro opensea_loop_ceiling) simp_all
  show "fetches (trace (snd (opensea_fetchOrders n w cfg a off))) \<le> n"
    using opensea_loop_fetches [of "opensea_init off" n w cfg a]
    by (simp add: opensea_fetchOrders_def opensea_init_def fetches_def)
qed

theorem realtime_ceiling_witness:
  "\<not> backfill ex_realtime_args \<and>
   \<not> done_flag (opensea_init 0\<lparr>numOrders := 950\<rparr>) \<and>
   fst (opensea_page ex_world_full ex_config ex_realtime_args (opensea_init 0\<lparr>numOrders := 950\<rparr>)) = None \<and>
   fetch ex_world_full (iter (opensea_init 0\<lparr>numOrders := 950\<rparr>))
     (opensea_next_request ex_world_full ex_config ex_realtime_args (opensea_init 0\<lparr>numOrders := 950\<rparr>)) =
     Inr (replicate 50 ex_order) \<and>
   maxOrdersToFetch \<le> numOrders (opensea_init 0\<lparr>numOrders := 950\<rparr>) + length (replicate 50 ex_order) \<and>
   fst (opensea_loop (Suc 0) ex_world_full ex_config ex_realtime_args (opensea_init 0\<lparr>numOrders := 950\<rparr>)) =
     Returned ''2022-05-01T10:00:00'' \<and>
   0 < limit ex_realtime_args \<and> maxOrdersToFetch \<le> nat (limit ex_realtime_args) * 20 \<and>
   fst (opensea_fetchOrders 20 ex_world_full ex_config ex_realtime_args 0) \<noteq> OutOfFuel"
proof -
  let ?w = ex_world_full and ?a = ex_realtime_args and ?c = ex_config
  let ?st = "opensea_init 0\<lparr>numOrders := 950\<rparr> :: opensea_event opensea_state"
  have nb: "\<not> backfill ?a" and lim: "limit ?a = 50" and no: "\<not> once ?a"
    by (simp_all add: ex_realtime_args_def)
  have nd: "\<not> done_flag ?st" and num: "numOrders ?st = 950" by (simp_all add: opensea_init_def)
  have f: "fetch ?w (iter ?st) (opensea_next_request ?w ?c ?a ?st) = Inr (replicate 50 ex_order)"
    by (simp add: ex_world_full_def)
  obtain vs where h:
    "handleAll (opensea_handleOrder (parse ?w) (once ?a)) (replicate 50 ex_order) = Inr ([], vs)"
    using handleAll_unparsed [of "replicate 50 ex_order" "parse ?w" "once ?a"]
    by (auto simp: ex_world_full_def)
  have ok: "fst (opensea_page ?w ?c ?a ?st) = None"
    using f h by (rule opensea_page_no_error) (simp_all add: ex_world_full_def)
  have ceil: "maxOrdersToFetch \<le> numOrders ?st + length (replicate 50 ex_order)"
    by (simp add: num maxOrdersToFetch_def)
  have lcd: "lastCreatedDate (snd (opensea_page ?w ?c ?a ?st)) = ''2022-05-01T10:00:00''"
    by (simp add: opensea_page_ok_vars(4) [OF ok f] opensea_advance_vars ex_order_def)
  have big: "0 < limit ?a \<and> maxOrdersToFetch \<le> nat (limit ?a) * 20"
    by (simp add: lim maxOrdersToFetch_def)
  from realtime_ceiling [OF nb, where st = ?st and w = ?w and cfg = ?c
      and os = "replicate 50 ex_order" and n = 0] nd ok f ceil lcd
  have A: "fst (opensea_loop (Suc 0) ?w ?c ?a ?st) = Returned ''2022-05-01T10:00:00''"
    by simp
  from realtime_ceiling [OF nb, where w = ?w and cfg = ?c and n = 20 and off = 0] big
  have B: "fst (opensea_fetchOrders 20 ?w ?c ?a 0) \<noteq> OutOfFuel"
    by simp
  show ?thesis using nb nd ok f ceil big A B by simp
qed

subsection \<open>Delays between the fetches\<close>

lemma delayed_fetches_quiet: "filter is_fetch tr = [] \<Longrightarrow> delayed_fetches (e # tr)"
proof (induction tr arbitrary: e)
  case Nil
  show ?case by simp
next
  case (Cons f tr)
  then show ?case by (simp split: if_splits)
qed

lemma delayed_fetches_append:
  "delayed_fetches (xs @ ys) \<longleftrightarrow>
     delayed_fetches xs \<and> delayed_fetches ys \<and>
     (xs \<noteq> [] \<and> ys \<noteq> [] \<and> is_fetch (hd ys) \<longrightarrow> last xs = EvSleep 1000)"
proof (induction xs rule: delayed_fetches.induct)
  case 1
  show ?case by simp
next
  case (2 e)
  show ?case by (cases ys) auto
next
  case (3 e f tr)
  then show ?case by auto
qed

text \<open>The invariant at the head of the loop.\<close>

lemma opensea_page_delayed:
  fixes w :: opensea_world
  assumes "\<not> once a" and "delayed_fetches (trace st)"
    and "trace st = [] \<or> last (trace st) = EvSleep 1000"
  shows "delayed_fetches (trace (snd (opensea_page w cfg a st)))"
    and "fst (opensea_page w cfg a st) = None \<Longrightarrow>
           last (trace (snd (opensea_page w cfg a st))) = EvSleep 1000"
  using assms
  by (rule_tac [!] opensea_page_elim [of w cfg a st])
     (auto simp: opensea_advance_vars delayed_fetches_append delayed_fetches_quiet quiet_fetches)

lemma opensea_loop_delayed:
  fixes w :: opensea_world
  assumes "\<not> once a"
  shows "delayed_fetches (trace st) \<Longrightarrow> trace st = [] \<or> last (trace st) = EvSleep 1000 \<Longrightarrow>
         delayed_fetches (trace (snd (opensea_loop n w cfg a st)))"
proof (induction n arbitrary: st)
  case 0
  then show ?case by simp
next
  case (Suc n)
  show ?case
  proof (cases "done_flag st")
    case True
    with Suc.prems show ?thesis by (simp add: opensea_loop_done)
  next
    case False
    note nd = this
    note page = opensea_page_delayed [OF assms Suc.prems, of w cfg]
    show ?thesis
    proof (cases "fst (opensea_page w cfg a st)")
      case (Some e)
      with nd page(1) show ?thesis by (simp add: opensea_loop_error)
    next
      case None
      with page have "delayed_fetches (trace (snd (opensea_loop n w cfg a (snd (opensea_page w cfg a st)))))"
        by (intro Suc.IH) simp_all
      with nd None show ?thesis by (simp add: opensea_loop_ok)
    qed
  qed
qed

text \<open>
  Claim C6. With \<open>once = true\<close> a run fetches exactly one page, whatever the page
  holds and whatever happens to it, and performs no delay: one iteration of fuel is
  enough for the run to end. With \<open>once = false\<close> every page that is processed ends
  with a delay of 1000 milliseconds, and in the trace of a run every fetch after the
  first one directly follows such a delay.
\<close>

theorem one_shot_and_delay:
  fixes w :: opensea_world
  shows "(once a \<longrightarrow>
            fst (opensea_fetchOrders (Suc n) w cfg a off) \<noteq> OutOfFuel \<and>
            fetches (trace (snd (opensea_fetchOrders (Suc n) w cfg a off))) = 1 \<and>
            sleeps (trace (snd (opensea_fetchOrders (Suc n) w cfg a off))) = 0) \<and>
         (\<not> once a \<longrightarrow>
            delayed_fetches (trace (snd (opensea_fetchOrders n w cfg a off))) \<and>
            (fst (opensea_page w cfg a st) = None \<longrightarrow>
               sleeps (trace (snd (opensea_page w cfg a st))) = sleeps (trace st) + 1 \<and>
               last (trace (snd (opensea_page w cfg a st))) = EvSleep 1000))"
proof (intro conjI impI)
  let ?i = "opensea_init off :: opensea_event opensea_state"
  assume o: "once a"
  have nd: "\<not> done_flag ?i" and tr: "fetches (trace ?i) = 0" "sleeps (trace ?i) = 0"
    by (simp_all add: opensea_init_def fetches_def sleeps_def)
  have run: "fst (opensea_loop (Suc n) w cfg a ?i) \<noteq> OutOfFuel \<and>
             fetches (trace (snd (opensea_loop (Suc n) w cfg a ?i))) = 1 \<and>
             sleeps (trace (snd (opensea_loop (Suc n) w cfg a ?i))) = 0"
  proof (cases "fst (opensea_page w cfg a ?i)")
    case (Some e)
    with nd tr o show ?thesis
      by (simp add: opensea_loop_error opensea_page_fetches opensea_page_sleeps)
  next
    case None
    then obtain os where f: "fetch w (iter ?i) (opensea_next_request w cfg a ?i) = Inr os"
      by (rule opensea_page_fetched)
    from o have "done_flag (snd (opensea_page w cfg a ?i))"
      by (simp add: opensea_page_ok_vars(1) [OF None f] opensea_advance_vars)
    with nd None tr o show ?thesis
      by (simp add: opensea_loop_ok opensea_loop_done opensea_page_fetches opensea_page_sleeps)
  qed
  from run show "fst (opensea_fetchOrders (Suc n) w cfg a off) \<noteq> OutOfFuel"
    by (simp add: opensea_fetchOrders_def)
  from run show "fetches (trace (snd (opensea_fetchOrders (Suc n) w cfg a off))) = 1"
    by (simp add: opensea_fetchOrders_def)
  from run show "sleeps (trace (snd (opensea_fetchOrders (Suc n) w cfg a off))) = 0"
    by (simp add: opensea_fetchOrders_def)
next
  assume no: "\<not> once a"
  show "delayed_fetches (trace (snd (opensea_fetchOrders n w cfg a off)))"
    unfolding opensea_fetchOrders_def using no
    by (rule opensea_loop_delayed) (simp_all add: opensea_init_def)
  assume ok: "fst (opensea_page w cfg a st) = None"
  with no show "sleeps (trace (snd (opensea_page w cfg a st))) = sleeps (trace st) + 1"
    by (simp add: opensea_page_sleeps)
  from ok no show "last (trace (snd (opensea_page w cfg a st))) = EvSleep 1000"
    by (rule_tac opensea_page_elim [of w cfg a st]) (simp_all add: opensea_advance_vars)
qed

theorem one_shot_and_delay_witness:
  "once ex_once_args \<and>
   fst (opensea_fetchOrders (Suc 0) ex_world_full ex_config ex_once_args 0) \<noteq> OutOfFuel \<and>
   fetches (trace (snd (opensea_fetchOrders (Suc 0) ex_world_full ex_config ex_once_args 0))) = 1 \<and>
   sleeps (trace (snd (opensea_fetchOrders (Suc 0) ex_world_full ex_config ex_once_args 0))) = 0 \<and>
   \<not> once ex_realtime_args \<and>
   delayed_fetches (trace (snd (opensea_fetchOrders 3 ex_world_full ex_config ex_realtime_args 0))) \<and>
   fst (opensea_page ex_world_full ex_config ex_realtime_args (opensea_init 0)) = None \<and>
   sleeps (trace (snd (opensea_page ex_world_full ex_config ex_realtime_args (opensea_init 0)))) = 1 \<and>
   last (trace (snd (opensea_page ex_world_full ex_config ex_realtime_args (opensea_init 0)))) =
     EvSleep 1000"
proof -
  let ?w = ex_world_full and ?a = ex_realtime_args and ?c = ex_config
  let ?st = "opensea_init 0 :: opensea_event opensea_state"
  have o: "once ex_once_args" by (simp add: ex_once_args_def)
  have no: "\<not> once ?a" by (simp add: ex_realtime_args_def)
  have f: "fetch ?w (iter ?st) (opensea_next_request ?w ?c ?a ?st) = Inr (replicate 50 ex_order)"
    by (simp add: ex_world_full_def)
  obtain vs where h:
    "handleAll (opensea_handleOrder (parse ?w) (once ?a)) (replicate 50 ex_order) = Inr ([], vs)"
    using handleAll_unparsed [of "replicate 50 ex_order" "parse ?w" "once ?a"]
    by (auto simp: ex_world_full_def)
  have ok: "fst (opensea_page ?w ?c ?a ?st) = None"
    using f h by (rule opensea_page_no_error) (simp_all add: ex_world_full_def)
  have s0: "sleeps (trace ?st) = 0" by (simp add: opensea_init_def sleeps_def)
  from one_shot_and_delay [where a = ex_once_args and w = ?w and cfg = ?c and n = 0 and off = 0] o
  have A: "fst (opensea_fetchOrders (Suc 0) ?w ?c ex_once_args 0) \<noteq> OutOfFuel \<and>
     fetches (trace (snd (opensea_fetchOrders (Suc 0) ?w ?c ex_once_args 0))) = 1 \<and>
     sleeps (trace (snd (opensea_fetchOrders (Suc 0) ?w ?c ex_once_args 0))) = 0"
    by simp
  from one_shot_and_delay [where a = ?a and w = ?w and cfg = ?c and n = 3 and off = 0 and st = ?st]
    no ok s0
  have B: "delayed_fetches (trace (snd (opensea_fetchOrders 3 ?w ?c ?a 0))) \<and>
     sleeps (trace (snd (opensea_page ?w ?c ?a ?st))) = 1 \<and>
     last (trace (snd (opensea_page ?w ?c ?a ?st))) = EvSleep 1000"
    by simp
  show ?thesis using o no ok A B by simp
qed

subsection \<open>The request of a one-shot run\<close>

lemma opensea_next_request_bounds:
  "once a \<Longrightarrow>
     opensea_next_request w cfg (a\<lparr>listedAfter := la, listedBefore := lb\<rparr>) st =
       opensea_next_request w cfg a st"
  by (simp add: opensea_next_request_def opensea_request_def)

lemma opensea_advance_bounds:
  "opensea_advance (a\<lparr>listedAfter := la, listedBefore := lb\<rparr>) os st = opensea_advance a os st"
  by (simp add: opensea_advance_def)

lemma once_bounds: "once (a\<lparr>listedAfter := la, listedBefore := lb\<rparr>) = once a"
  by simp

lemma opensea_page_bounds:
  assumes "once a"
  shows "opensea_page w cfg (a\<lparr>listedAfter := la, listedBefore := lb\<rparr>) st =
           opensea_page w cfg a st"
  unfolding opensea_page_def opensea_next_request_bounds [OF assms] opensea_advance_bounds
    once_bounds
  by (rule refl)

lemma opensea_loop_bounds:
  assumes "once a"
  shows "opensea_loop n w cfg (a\<lparr>listedAfter := la, listedBefore := lb\<rparr>) st =
           opensea_loop n w cfg a st"
proof (induction n arbitrary: st)
  case 0
  show ?case by simp
next
  case (Suc n)
  show ?case
  proof (cases "opensea_page w cfg a st")
    case (Pair err st')
    then show ?thesis
      by (cases err) (simp_all add: opensea_loop.simps(2) opensea_page_bounds [OF assms] Suc)
  qed
qed

text \<open>
  Claim C10. With \<open>once = true\<close> the request of a page leaves \<open>listedAfter\<close> out and
  sends the current time as \<open>listedBefore\<close>; the arguments \<open>listedAfter\<close> and
  \<open>listedBefore\<close> of the call have no influence on the run, neither on its result nor
  on any of its effects.
\<close>

theorem one_shot_ignores_bounds:
  assumes "once a"
  shows "q_listedAfter (url (opensea_next_request w cfg a st)) = None \<and>
         q_listedBefore (url (opensea_next_request w cfg a st)) = Some (now w (iter st)) \<and>
         opensea_fetchOrders n w cfg (a\<lparr>listedAfter := la, listedBefore := lb\<rparr>) off =
           opensea_fetchOrders n w cfg a off"
  using assms
  by (simp add: opensea_next_request_def opensea_request_def opensea_fetchOrders_def
        opensea_loop_bounds)

theorem one_shot_ignores_bounds_witness:
  "once ex_once_args \<and>
   q_listedAfter (url (opensea_next_request ex_world_full ex_config ex_once_args (opensea_init 0))) = None \<and>
   q_listedBefore (url (opensea_next_request ex_world_full ex_config ex_once_args (opensea_init 0))) =
     Some 1651400000 \<and>
   opensea_fetchOrders 2 ex_world_full ex_config (ex_once_args\<lparr>listedAfter := 7, listedBefore := 9\<rparr>) 0 =
     opensea_fetchOrders 2 ex_world_full ex_config ex_once_args 0"
proof -
  have o: "once ex_once_args" by (simp add: ex_once_args_def)
  have t: "now ex_world_full (iter (opensea_init 0)) = 1651400000"
    by (simp add: ex_world_full_def opensea_init_def)
  from one_shot_ignores_bounds [OF o, where w = ex_world_full and cfg = ex_config
      and st = "opensea_init 0" and n = 2 and la = 7 and lb = 9 and off = 0] t o
  show ?thesis by simp
qed

subsection \<open>One page of the cursor-mode loop\<close>

text \<open>
  Whatever happens to a page, it starts with one fetch, and what follows holds neither
  a fetch nor a delay. The \<open>done\<close> flag is raised only by an insert of a non-empty batch
  that answers with no row, and the rows handed to the store are rows the handlers built
  from the page fetched.
\<close>

lemma seaport_page_elim:
  fixes w :: "'p seaport_world"
  assumes shape: "\<And>err rest c d. \<lbrakk>seaport_page w st =
            (err, st\<lparr>done_flag := d, iter := iter st + 1,
                      trace := trace st @ EvFetch (seaport_request (cursor st) None None)
                          (fetch w (iter st) (seaport_request (cursor st) None None)) # rest,
                      cursor := c\<rparr>);
            quiet rest;
            d \<and> \<not> done_flag st \<longrightarrow> (\<exists>vs. vs \<noteq> [] \<and> EvInsert vs (Inr 0) \<in> set rest);
            filter is_insert rest = [] \<longrightarrow> d = done_flag st;
            \<forall>row\<in>set (inserted_rows rest). \<exists>r ps vs.
               fetch w (iter st) (seaport_request (cursor st) None None) = Inr r \<and>
               handleAll (fetchOrders_handleOrder (parse w)) (orders r) = Inr (ps, vs) \<and>
               row \<in> set vs\<rbrakk> \<Longrightarrow> P"
  shows P
proof (cases "fetch w (iter st) (seaport_request (cursor st) None None)")
  case (Inl e)
  then have "seaport_page w st =
      (Some e, st\<lparr>done_flag := done_flag st, iter := iter st + 1,
                  trace := trace st @ EvFetch (seaport_request (cursor st) None None)
                     (fetch w (iter st) (seaport_request (cursor st) None None)) # [],
                  cursor := cursor st\<rparr>)"
    by (simp add: seaport_page_def Let_def)
  then show P by (rule shape) (simp_all add: quiet_def)
next
  case (Inr r)
  note fetched = this
  show P
  proof (cases "handleAll (fetchOrders_handleOrder (parse w)) (orders r)")
    case (Inl e)
    with fetched have "seaport_page w st =
      (Some e, st\<lparr>done_flag := done_flag st, iter := iter st + 1,
                  trace := trace st @ EvFetch (seaport_request (cursor st) None None)
                     (fetch w (iter st) (seaport_request (cursor st) None None)) # [],
                  cursor := next_cursor r\<rparr>)"
      by (simp add: seaport_page_def Let_def)
    then show P by (rule shape) (simp_all add: quiet_def)
  next
    case (Inr pv)
    then obtain ps vs where
      handled: "handleAll (fetchOrders_handleOrder (parse w)) (orders r) = Inr (ps, vs)"
      by (cases pv) simp
    obtain qerr qtr where q: "relay w (iter st) ''seaport'' ps [] = (qerr, qtr)"
      by (cases "relay w (iter st) ''seaport'' ps []") blast
    have qq: "quiet qtr" using q by (rule relay_quiet)
    have qr: "inserted_rows qtr = []" using q by (rule relay_no_rows)
    have qn: "filter is_insert qtr = []" using q by (rule relay_no_insert)
    have q': "\<And>tr. relay w (iter st) ''seaport'' ps tr = (qerr, tr @ qtr)"
      using q by (rule relay_append)
    show P
    proof (cases "vs = []")
      case True
      with fetched handled q' have "seaport_page w st =
        (qerr, st\<lparr>done_flag := done_flag st, iter := iter st + 1,
                  trace := trace st @ EvFetch (seaport_request (cursor st) None None)
                     (fetch w (iter st) (seaport_request (cursor st) None None)) # qtr,
                  cursor := next_cursor r\<rparr>)"
        by (simp add: seaport_page_def Let_def)
      then show P by (rule shape) (use qq qr in simp_all)
    next
      case False
      note nonempty = this
      show P
      proof (cases "insert_rows w (iter st) vs")
        case (Inl e)
        with fetched handled nonempty have "seaport_page w st =
          (Some e, st\<lparr>done_flag := done_flag st, iter := iter st + 1,
                  trace := trace st @ EvFetch (seaport_request (cursor st) None None)
                     (fetch w (iter st) (seaport_request (cursor st) None None))
                       # [EvInsert vs (Inl e)],
                  cursor := next_cursor r\<rparr>)"
          by (simp add: seaport_page_def Let_def)
        then show P by (rule shape) (use fetched handled in \<open>simp_all add: quiet_def\<close>)
      next
        case (Inr n)
        with fetched handled nonempty q' have "seaport_page w st =
          (qerr, st\<lparr>done_flag := (if n = 0 then True else done_flag st), iter := iter st + 1,
                  trace := trace st @ EvFetch (seaport_request (cursor st) None None)
                     (fetch w (iter st) (seaport_request (cursor st) None None))
                       # (EvInsert vs (Inr n) # qtr),
                  cursor := next_cursor r\<rparr>)"
          by (simp add: seaport_page_def Let_def)
        then show P
          by (rule shape) (use qq qr nonempty fetched handled in \<open>auto simp: quiet_def\<close>)
      qed
    qed
  qed
qed

lemma seaport_page_fetches:
  fixes w :: "'p seaport_world"
  shows "fetches (trace (snd (seaport_page w st))) = fetches (trace st) + 1"
  by (rule seaport_page_elim [of w st]) (simp add: fetches_def quiet_fetches)

lemma seaport_page_empty:
  fixes w :: "'p seaport_world"
  assumes "fetch w (iter st) (seaport_request (cursor st) None None) = Inr r" and "orders r = []"
  shows "seaport_page w st =
           (None, st\<lparr>iter := iter st + 1,
                     trace := trace st @ [EvFetch (seaport_request (cursor st) None None) (Inr r)],
                     cursor := next_cursor r\<rparr>)"
  using assms by (simp add: seaport_page_def relay_def Let_def)

lemma seaport_page_caught_up:
  fixes w :: "'p seaport_world"
  assumes "fetch w (iter st) (seaport_request (cursor st) None None) = Inr r"
    and "handleAll (fetchOrders_handleOrder (parse w)) (orders r) = Inr (ps, vs)"
    and "vs \<noteq> []" and "insert_rows w (iter st) vs = Inr 0"
  shows "done_flag (snd (seaport_page w st))"
proof -
  obtain qerr qtr where "relay w (iter st) ''seaport'' ps [] = (qerr, qtr)"
    by (cases "relay w (iter st) ''seaport'' ps []") blast
  then have "\<And>tr. relay w (iter st) ''seaport'' ps tr = (qerr, tr @ qtr)"
    by (rule relay_append)
  with assms show ?thesis by (simp add: seaport_page_def Let_def)
qed

subsection \<open>The cursor-mode loop\<close>

lemma seaport_loop_done: "done_flag st \<Longrightarrow> seaport_loop n w st = (Returned (), st)"
  by (cases n) simp_all

lemma seaport_loop_error:
  assumes "\<not> done_flag st" and "fst (seaport_page w st) = Some e"
  shows "seaport_loop (Suc n) w st = (Raised e, snd (seaport_page w st))"
  using assms by (cases "seaport_page w st") auto

lemma seaport_loop_ok:
  assumes "\<not> done_flag st" and "fst (seaport_page w st) = None"
  shows "seaport_loop (Suc n) w st = seaport_loop n w (snd (seaport_page w st))"
  using assms by (cases "seaport_page w st") auto

declare seaport_loop.simps(2) [simp del]

lemma seaport_loop_running:
  "fst (seaport_loop k w st) = OutOfFuel \<Longrightarrow>
     \<not> done_flag (snd (seaport_loop k w st)) \<and>
     fetches (trace (snd (seaport_loop k w st))) = fetches (trace st) + k"
proof (induction k arbitrary: st)
  case 0
  then show ?case by (simp split: if_splits)
next
  case (Suc k)
  show ?case
  proof (cases "done_flag st")
    case True
    with Suc.prems show ?thesis by (simp add: seaport_loop_done)
  next
    case False
    note nd = this
    show ?thesis
    proof (cases "fst (seaport_page w st)")
      case None
      with nd Suc show ?thesis by (simp add: seaport_loop_ok seaport_page_fetches)
    next
      case (Some e)
      with nd Suc.prems show ?thesis by (simp add: seaport_loop_error)
    qed
  qed
qed

lemma seaport_loop_add:
  "fst (seaport_loop k w st) = OutOfFuel \<Longrightarrow>
     seaport_loop (k + m) w st = seaport_loop m w (snd (seaport_loop k w st))"
proof (induction k arbitrary: st)
  case 0
  then show ?case by (simp split: if_splits)
next
  case (Suc k)
  show ?case
  proof (cases "done_flag st")
    case True
    with Suc.prems show ?thesis by (simp add: seaport_loop_done)
  next
    case False
    note nd = this
    show ?thesis
    proof (cases "fst (seaport_page w st)")
      case None
      with nd Suc show ?thesis by (simp add: seaport_loop_ok)
    next
      case (Some e)
      with nd Suc.prems show ?thesis by (simp add: seaport_loop_error)
    qed
  qed
qed

lemma seaport_page_fetch_error:
  fixes w :: "'p seaport_world"
  assumes "fetch w (iter st) (seaport_request (cursor st) None None) = Inl e"
  shows "fst (seaport_page w st) = Some e"
  using assms by (simp add: seaport_page_def Let_def)

lemma seaport_page_handler_error:
  fixes w :: "'p seaport_world"
  assumes "fetch w (iter st) (seaport_request (cursor st) None None) = Inr r"
    and "handleAll (fetchOrders_handleOrder (parse w)) (orders r) = Inl e"
  shows "fst (seaport_page w st) = Some e"
  using assms by (simp add: seaport_page_def Let_def)

lemma seaport_page_insert_error:
  fixes w :: "'p seaport_world"
  assumes "fetch w (iter st) (seaport_request (cursor st) None None) = Inr r"
    and "handleAll (fetchOrders_handleOrder (parse w)) (orders r) = Inr (ps, vs)"
    and "vs \<noteq> []" and "insert_rows w (iter st) vs = Inl e"
  shows "fst (seaport_page w st) = Some e"
  using assms by (simp add: seaport_page_def Let_def)

lemma seaport_page_enqueue:
  fixes w :: "'p seaport_world"
  assumes "fetch w (iter st) (seaport_request (cursor st) None None) = Inr r"
    and "handleAll (fetchOrders_handleOrder (parse w)) (orders r) = Inr (ps, vs)"
    and "vs = [] \<or> (\<exists>m. insert_rows w (iter st) vs = Inr m)"
  shows "fst (seaport_page w st) =
           (if ps = [] then None
            else enqueue w (iter st)
                   (map (\<lambda>order. \<lparr>kind = ''seaport'', env_data = params order\<rparr>) ps) True)"
proof (cases "vs = []")
  case True
  with assms(1,2) show ?thesis
    by (simp add: seaport_page_def Let_def relay_def)
next
  case False
  with assms(3) obtain m where "insert_rows w (iter st) vs = Inr m" by blast
  with False assms(1,2) show ?thesis
    by (simp add: seaport_page_def Let_def relay_def)
qed

lemma seaport_page_enqueue_error:
  fixes w :: "'p seaport_world"
  assumes "fetch w (iter st) (seaport_request (cursor st) None None) = Inr r"
    and "handleAll (fetchOrders_handleOrder (parse w)) (orders r) = Inr (ps, vs)"
    and "vs = [] \<or> (\<exists>m. insert_rows w (iter st) vs = Inr m)"
    and "ps \<noteq> []"
    and "enqueue w (iter st)
           (map (\<lambda>order. \<lparr>kind = ''seaport'', env_data = params order\<rparr>) ps) True = Some e"
  shows "fst (seaport_page w st) = Some e"
  using seaport_page_enqueue [OF assms(1-3)] assms(4,5) by simp

lemma seaport_page_no_error:
  fixes w :: "'p seaport_world"
  assumes "fetch w (iter st) (seaport_request (cursor st) None None) = Inr r"
    and "handleAll (fetchOrders_handleOrder (parse w)) (orders r) = Inr (ps, vs)"
    and "vs = [] \<or> (\<exists>m. insert_rows w (iter st) vs = Inr m)"
    and "ps = [] \<or>
         enqueue w (iter st)
           (map (\<lambda>order. \<lparr>kind = ''seaport'', env_data = params order\<rparr>) ps) True = None"
  shows "fst (seaport_page w st) = None"
  using seaport_page_enqueue [OF assms(1-3)] assms(4) by auto

text \<open>
  Claim C5. Take a run of the continuous drain in which \<open>k\<close> pages are processed and the
  loop is still running, and look at the next page. Whatever throws there is what the
  call rejects with, and the page is the last one fetched: the error of the fetch, the
  error of a handler (the parser rejecting, or the \<open>TypeError\<close> of an order with nothing
  on offer), the error of the insert, and the error of the enqueue that follows the
  insert. A rejected call carries no value. If the page holds rows, its insert answers
  with no new row, and the enqueue after it does not throw (or there is nothing to
  enqueue), the call returns normally after that page, however much fuel is left.
\<close>

theorem drain_stop_and_errors:
  fixes w :: "'p seaport_world"
  assumes "fst (seaport_fetchOrders k w) = OutOfFuel" and "k < n"
  shows "(fetch w (iter (snd (seaport_fetchOrders k w))) (seaport_request (cursor (snd (seaport_fetchOrders k w))) None None) = Inl e \<longrightarrow>
            fst (seaport_fetchOrders n w) = Raised e \<and>
             fetches (trace (snd (seaport_fetchOrders n w))) = k + 1) \<and>
         (fetch w (iter (snd (seaport_fetchOrders k w))) (seaport_request (cursor (snd (seaport_fetchOrders k w))) None None) = Inr r \<and>
          handleAll (fetchOrders_handleOrder (parse w)) (orders r) = Inl e \<longrightarrow>
            fst (seaport_fetchOrders n w) = Raised e \<and>
             fetches (trace (snd (seaport_fetchOrders n w))) = k + 1) \<and>
         (fetch w (iter (snd (seaport_fetchOrders k w))) (seaport_request (cursor (snd (seaport_fetchOrders k w))) None None) = Inr r \<and>
          handleAll (fetchOrders_handleOrder (parse w)) (orders r) = Inr (ps, vs) \<and>
          vs \<noteq> [] \<and> insert_rows w (iter (snd (seaport_fetchOrders k w))) vs = Inl e \<longrightarrow>
            fst (seaport_fetchOrders n w) = Raised e \<and>
             fetches (trace (snd (seaport_fetchOrders n w))) = k + 1) \<and>
         (fetch w (iter (snd (seaport_fetchOrders k w))) (seaport_request (cursor (snd (seaport_fetchOrders k w))) None None) = Inr r \<and>
          handleAll (fetchOrders_handleOrder (parse w)) (orders r) = Inr (ps, vs) \<and>
          (vs = [] \<or> (\<exists>m. insert_rows w (iter (snd (seaport_fetchOrders k w))) vs = Inr m)) \<and>
          ps \<noteq> [] \<and>
          enqueue w (iter (snd (seaport_fetchOrders k w)))
               (map (\<lambda>order. \<lparr>kind = ''seaport'', env_data = params order\<rparr>) ps) True = Some e \<longrightarrow>
            fst (seaport_fetchOrders n w) = Raised e \<and>
             fetches (trace (snd (seaport_fetchOrders n w))) = k + 1) \<and>
         (fetch w (iter (snd (seaport_fetchOrders k w))) (seaport_request (cursor (snd (seaport_fetchOrders k w))) None None) = Inr r \<and>
          handleAll (fetchOrders_handleOrder (parse w)) (orders r) = Inr (ps, vs) \<and>
          vs \<noteq> [] \<and> insert_rows w (iter (snd (seaport_fetchOrders k w))) vs = Inr 0 \<and>
          (ps = [] \<or>
           enqueue w (iter (snd (seaport_fetchOrders k w)))
               (map (\<lambda>order. \<lparr>kind = ''seaport'', env_data = params order\<rparr>) ps) True = None) \<longrightarrow>
            fst (seaport_fetchOrders n w) = Returned () \<and>
             fetches (trace (snd (seaport_fetchOrders n w))) = k + 1)"
proof -
  let ?i = "seaport_init :: 'p seaport_event seaport_state"
  let ?st = "snd (seaport_loop k w ?i)"
  from assms(1) have run: "fst (seaport_loop k w ?i) = OutOfFuel"
    by (simp add: seaport_fetchOrders_def)
  from assms(2) obtain m where n: "n = k + Suc m"
    by (metis add_Suc_right less_iff_Suc_add)
  from seaport_loop_running [OF run]
  have nd: "\<not> done_flag ?st" and cnt: "fetches (trace ?st) = k"
    by (simp_all add: seaport_init_def fetches_def)
  have cont: "seaport_loop n w ?i = seaport_loop (Suc m) w ?st"
    unfolding n using run by (rule seaport_loop_add)
  have fail: "fst (seaport_loop n w ?i) = Raised e \<and>
              fetches (trace (snd (seaport_loop n w ?i))) = k + 1"
    if "fst (seaport_page w ?st) = Some e" for e
    using cont nd that cnt by (simp add: seaport_loop_error seaport_page_fetches)
  have stop: "fst (seaport_loop n w ?i) = Returned () \<and>
              fetches (trace (snd (seaport_loop n w ?i))) = k + 1"
    if "fst (seaport_page w ?st) = None" and "done_flag (snd (seaport_page w ?st))"
    using cont nd that cnt
    by (simp add: seaport_loop_ok seaport_loop_done seaport_page_fetches)
  have c1: "fetch w (iter (?st)) (seaport_request (cursor (?st)) None None) = Inl e \<longrightarrow>
            fst (seaport_loop n w ?i) = Raised e \<and>
             fetches (trace (snd (seaport_loop n w ?i))) = k + 1"
  proof
    assume h: "fetch w (iter (?st)) (seaport_request (cursor (?st)) None None) = Inl e"
    have "fst (seaport_page w ?st) = Some e"
      by (rule seaport_page_fetch_error [of w ?st e]) (use h in \<open>simp_all\<close>)
    then show "fst (seaport_loop n w ?i) = Raised e \<and>
             fetches (trace (snd (seaport_loop n w ?i))) = k + 1"
      by (rule fail)
  qed
  have c2: "fetch w (iter (?st)) (seaport_request (cursor (?st)) None None) = Inr r \<and>
          handleAll (fetchOrders_handleOrder (parse w)) (orders r) = Inl e \<longrightarrow>
            fst (seaport_loop n w ?i) = Raised e \<and>
             fetches (trace (snd (seaport_loop n w ?i))) = k + 1"
  proof
    assume h: "fetch w (iter (?st)) (seaport_request (cursor (?st)) None None) = Inr r \<and>
          handleAll (fetchOrders_handleOrder (parse w)) (orders r) = Inl e"
    have "fst (seaport_page w ?st) = Some e"
      by (rule seaport_page_handler_error [of w ?st r e]) (use h in \<open>simp_all\<close>)
    then show "fst (seaport_loop n w ?i) = Raised e \<and>
             fetches (trace (snd (seaport_loop n w ?i))) = k + 1"
      by (rule fail)
  qed
  have c3: "fetch w (iter (?st)) (seaport_request (cursor (?st)) None None) = Inr r \<and>
          handleAll (fetchOrders_handleOrder (parse w)) (orders r) = Inr (ps, vs) \<and>
          vs \<noteq> [] \<and> insert_rows w (iter (?st)) vs = Inl e \<longrightarrow>
            fst (seaport_loop n w ?i) = Raised e \<and>
             fetches (trace (snd (seaport_loop n w ?i))) = k + 1"
  proof
    assume h: "fetch w (iter (?st)) (seaport_request (cursor (?st)) None None) = Inr r \<and>
          handleAll (fetchOrders_handleOrder (parse w)) (orders r) = Inr (ps, vs) \<and>
          vs \<noteq> [] \<and> insert_rows w (iter (?st)) vs = Inl e"
    have "fst (seaport_page w ?st) = Some e"
      by (rule seaport_page_insert_error [of w ?st r ps vs e]) (use h in \<open>simp_all\<close>)
    then show "fst (seaport_loop n w ?i) = Raised e \<and>
             fetches (trace (snd (seaport_loop n w ?i))) = k + 1"
      by (rule fail)
  qed
  have c4: "fetch w (iter (?st)) (seaport_request (cursor (?st)) None None) = Inr r \<and>
          handleAll (fetchOrders_handleOrder (parse w)) (orders r) = Inr (ps, vs) \<and>
          (vs = [] \<or> (\<exists>m. insert_rows w (iter (?st)) vs = Inr m)) \<and>
          ps \<noteq> [] \<and>
          enqueue w (iter (?st))
               (map (\<lambda>order. \<lparr>kind = ''seaport'', env_data = params order\<rparr>) ps) True = Some e \<longrightarrow>
            fst (seaport_loop n w ?i) = Raised e \<and>
             fetches (trace (snd (seaport_loop n w ?i))) = k + 1"
  proof
    assume h: "fetch w (iter (?st)) (seaport_request (cursor (?st)) None None) = Inr r \<and>
          handleAll (fetchOrders_handleOrder (parse w)) (orders r) = Inr (ps, vs) \<and>
          (vs = [] \<or> (\<exists>m. insert_rows w (iter (?st)) vs = Inr m)) \<and>
          ps \<noteq> [] \<and>
          enqueue w (iter (?st))
               (map (\<lambda>order. \<lparr>kind = ''seaport'', env_data = params order\<rparr>) ps) True = Some e"
    have "fst (seaport_page w ?st) = Some e"
      by (rule seaport_page_enqueue_error [of w ?st r ps vs e]) (use h in \<open>simp_all\<close>)
    then show "fst (seaport_loop n w ?i) = Raised e \<and>
             fetches (trace (snd (seaport_loop n w ?i))) = k + 1"
      by (rule fail)
  qed
  have c5: "fetch w (iter (?st)) (seaport_request (cursor (?st)) None None) = Inr r \<and>
          handleAll (fetchOrders_handleOrder (parse w)) (orders r) = Inr (ps, vs) \<and>
          vs \<noteq> [] \<and> insert_rows w (iter (?st)) vs = Inr 0 \<and>
          (ps = [] \<or>
           enqueue w (iter (?st))
               (map (\<lambda>order. \<lparr>kind = ''seaport'', env_data = params order\<rparr>) ps) True = None) \<longrightarrow>
            fst (seaport_loop n w ?i) = Returned () \<and>
             fetches (trace (snd (seaport_loop n w ?i))) = k + 1"
  proof
    assume h: "fetch w (iter (?st)) (seaport_request (cursor (?st)) None None) = Inr r \<and>
          handleAll (fetchOrders_handleOrder (parse w)) (orders r) = Inr (ps, vs) \<and>
          vs \<noteq> [] \<and> insert_rows w (iter (?st)) vs = Inr 0 \<and>
          (ps = [] \<or>
           enqueue w (iter (?st))
               (map (\<lambda>order. \<lparr>kind = ''seaport'', env_data = params order\<rparr>) ps) True = None)"
    have "fst (seaport_page w ?st) = None"
      by (rule seaport_page_no_error [of w ?st r ps vs]) (use h in \<open>auto\<close>)
    moreover have "done_flag (snd (seaport_page w ?st))"
      by (rule seaport_page_caught_up [of w ?st r ps vs]) (use h in \<open>simp_all\<close>)
    ultimately show "fst (seaport_loop n w ?i) = Returned () \<and>
             fetches (trace (snd (seaport_loop n w ?i))) = k + 1"
      by (rule stop)
  qed
  from c1 c2 c3 c4 c5 show ?thesis
    unfolding seaport_fetchOrders_def by (intro conjI)
qed

lemmas seaport_defs = seaport_fetchOrders_def seaport_init_def seaport_loop.simps
  seaport_page_def seaport_request_def fetchOrders_handleOrder_def fetchOrders_target_def
  parsed_contract_def offer0_token_def relay_def Let_def

lemmas ex_seaport_defs = ex_seaport_dup_def ex_seaport_queue_down_def ex_seaport_parsed_def ex_seaport_fail_def ex_seaport_empty_def
  ex_seaport_page_def ex_seaport_order_def

theorem drain_stop_and_errors_witness:
  "fst (seaport_fetchOrders (Suc 0) ex_seaport_dup) = OutOfFuel \<and>
   fst (seaport_fetchOrders 5 ex_seaport_dup) = Returned () \<and>
   fetches (trace (snd (seaport_fetchOrders 5 ex_seaport_dup))) = 2 \<and>
   fst (seaport_fetchOrders (Suc 0) ex_seaport_fail) = OutOfFuel \<and>
   fst (seaport_fetchOrders 5 ex_seaport_fail) = Raised (Rejected ''timeout'') \<and>
   fst (seaport_fetchOrders 0 ex_seaport_queue_down) = OutOfFuel \<and>
   fst (seaport_fetchOrders 5 ex_seaport_queue_down) = Raised (Rejected ''queue down'')"
proof -
  let ?d = ex_seaport_dup and ?f = ex_seaport_fail and ?q = ex_seaport_queue_down
  let ?vs = "[\<lparr>hash = toLowerCase ''0xAbCd'', target = toLowerCase ''0xC0FFEE'',
               maker = toLowerCase ''0xBEEF02'', created_at = ''2022-06-20T12:00:00'',
               data = \<lparr>offer = [\<lparr>token = ''0xC0FFEE''\<rparr>], parameters_rest = ''consideration''\<rparr>,
               delayed = None, source = ''opensea''\<rparr>]"
  let ?ws = "[\<lparr>hash = toLowerCase ''0xAbCd'', target = toLowerCase ''0xDadA'',
               maker = toLowerCase ''0xBEEF02'', created_at = ''2022-06-20T12:00:00'',
               data = \<lparr>offer = [\<lparr>token = ''0xC0FFEE''\<rparr>], parameters_rest = ''consideration''\<rparr>,
               delayed = None, source = ''opensea''\<rparr>]"
  have d1: "fst (seaport_fetchOrders (Suc 0) ?d) = OutOfFuel"
    by (simp add: seaport_defs ex_seaport_defs)
  have d2: "fetch ?d (iter (snd (seaport_fetchOrders (Suc 0) ?d)))
              (seaport_request (cursor (snd (seaport_fetchOrders (Suc 0) ?d))) None None) =
            Inr ex_seaport_page"
    by (simp add: ex_seaport_dup_def)
  have d3: "handleAll (fetchOrders_handleOrder (parse ?d)) (orders ex_seaport_page) = Inr ([], ?vs)"
    by (simp add: seaport_defs ex_seaport_defs)
  have d4: "insert_rows ?d (iter (snd (seaport_fetchOrders (Suc 0) ?d))) ?vs = Inr 0"
    by (simp add: seaport_defs ex_seaport_defs)
  have lt: "Suc 0 < (5::nat)" "0 < (5::nat)" and ne: "?vs \<noteq> []" by simp_all
  note Td = drain_stop_and_errors [OF d1 lt(1), where r = ex_seaport_page
      and ps = "[]" and vs = ?vs]
  from Td d2 d3 ne d4
  have "fst (seaport_fetchOrders 5 ?d) = Returned () \<and>
        fetches (trace (snd (seaport_fetchOrders 5 ?d))) = Suc 0 + 1"
    by blast
  then have D: "fst (seaport_fetchOrders 5 ?d) = Returned ()"
    "fetches (trace (snd (seaport_fetchOrders 5 ?d))) = 2"
    by simp_all
  have f1: "fst (seaport_fetchOrders (Suc 0) ?f) = OutOfFuel"
    by (simp add: seaport_defs ex_seaport_defs)
  have f2: "fetch ?f (iter (snd (seaport_fetchOrders (Suc 0) ?f)))
              (seaport_request (cursor (snd (seaport_fetchOrders (Suc 0) ?f))) None None) =
            Inl (Rejected ''timeout'')"
    by (simp add: seaport_defs ex_seaport_defs)
  note Tf = drain_stop_and_errors [OF f1 lt(1), where e = "Rejected ''timeout''"]
  from Tf f2 have F: "fst (seaport_fetchOrders 5 ?f) = Raised (Rejected ''timeout'')"
    by blast
  have q1: "fst (seaport_fetchOrders 0 ?q) = OutOfFuel"
    by (simp add: seaport_defs ex_seaport_defs)
  have q2: "fetch ?q (iter (snd (seaport_fetchOrders 0 ?q)))
              (seaport_request (cursor (snd (seaport_fetchOrders 0 ?q))) None None) =
            Inr ex_seaport_page"
    by (simp add: ex_seaport_queue_down_def)
  have q3: "handleAll (fetchOrders_handleOrder (parse ?q)) (orders ex_seaport_page) =
              Inr ([ex_seaport_parsed], ?ws)"
    by (simp add: seaport_defs ex_seaport_defs toLowerCase_Nil_iff)
  have q4: "?ws = [] \<or> (\<exists>m. insert_rows ?q (iter (snd (seaport_fetchOrders 0 ?q))) ?ws = Inr m)"
    by (simp add: ex_seaport_queue_down_def)
  have q5: "[ex_seaport_parsed] \<noteq> []" by simp
  have q6: "enqueue ?q (iter (snd (seaport_fetchOrders 0 ?q)))
              (map (\<lambda>order. \<lparr>kind = ''seaport'', env_data = params order\<rparr>) [ex_seaport_parsed])
              True = Some (Rejected ''queue down'')"
    by (simp add: ex_seaport_queue_down_def)
  note Tq = drain_stop_and_errors [OF q1 lt(2), where r = ex_seaport_page
      and ps = "[ex_seaport_parsed]" and vs = ?ws and e = "Rejected ''queue down''"]
  from Tq q2 q3 q4 q5 q6
  have Q: "fst (seaport_fetchOrders 5 ?q) = Raised (Rejected ''queue down'')"
    by blast
  from d1 D f1 F q1 Q show ?thesis by (intro conjI)
qed

text \<open>
  The insert of the first page answers with no new row, and yet the call does not halt
  normally: the orders of the page are parsed, so the enqueue of lines 89 to 97 still
  runs after the insert, and the error it throws is what the call rejects with.
\<close>

theorem drain_zero_rows_counterexample:
  "insert_results (trace (snd (seaport_fetchOrders (Suc 0) ex_seaport_queue_down))) = [Inr 0] \<and>
   fst (seaport_fetchOrders (Suc 0) ex_seaport_queue_down) = Raised (Rejected ''queue down'')"
  by (simp add: seaport_defs ex_seaport_defs)

subsection \<open>What ends the continuous drain\<close>

lemma seaport_loop_returned:
  fixes w :: "'p seaport_world"
  shows "fst (seaport_loop n w st) = Returned () \<Longrightarrow> \<not> done_flag st \<Longrightarrow>
     \<exists>vs. vs \<noteq> [] \<and> EvInsert vs (Inr 0) \<in> set (trace (snd (seaport_loop n w st)))"
proof (induction n arbitrary: st)
  case 0
  then show ?case by simp
next
  case (Suc n)
  note nd = \<open>\<not> done_flag st\<close>
  show ?case
  proof (cases "fst (seaport_page w st)")
    case (Some e)
    with nd Suc.prems(1) show ?thesis by (simp add: seaport_loop_error)
  next
    case None
    note ok = this
    let ?st' = "snd (seaport_page w st)"
    show ?thesis
    proof (cases "done_flag ?st'")
      case False
      with nd ok Suc.prems(1) Suc.IH [of ?st'] show ?thesis by (simp add: seaport_loop_ok)
    next
      case True
      have "\<exists>vs. vs \<noteq> [] \<and> EvInsert vs (Inr 0) \<in> set (trace ?st')"
        by (rule seaport_page_elim [of w st]) (use True nd in auto)
      with nd ok True show ?thesis by (simp add: seaport_loop_ok seaport_loop_done)
    qed
  qed
qed

lemma seaport_loop_empty_pages:
  fixes w :: "'p seaport_world"
  assumes "\<forall>k req. \<exists>r. fetch w k req = Inr r \<and> orders r = []"
  shows "\<not> done_flag st \<Longrightarrow>
     fst (seaport_loop n w st) = OutOfFuel \<and>
     fetches (trace (snd (seaport_loop n w st))) = fetches (trace st) + n \<and>
     inserts (trace (snd (seaport_loop n w st))) = inserts (trace st)"
proof (induction n arbitrary: st)
  case 0
  then show ?case by simp
next
  case (Suc n)
  from assms obtain r where
    r: "fetch w (iter st) (seaport_request (cursor st) None None) = Inr r" "orders r = []"
    by blast
  note page = seaport_page_empty [OF r]
  let ?st' = "snd (seaport_page w st)"
  from page Suc.prems have "\<not> done_flag ?st'" by simp
  from Suc.IH [OF this] page Suc.prems show ?case
    by (simp add: seaport_loop_ok fetches_def inserts_def)
qed

text \<open>
  Claim C9. A run of the continuous drain that returns has inserted a non-empty batch
  for which the store answered with no new row: nothing else ends the loop normally. A
  page without orders skips the insert, leaves \<open>done\<close> as it is and only moves the
  cursor, and the loop fetches again. When the upstream answers every request with an
  empty page the call never returns: whatever the fuel \<open>n\<close>, the run is still going
  after \<open>n\<close> fetches, and it has inserted nothing.
\<close>

theorem drain_stops_only_on_duplicates:
  fixes w :: "'p seaport_world"
  shows "(fst (seaport_fetchOrders n w) = Returned () \<longrightarrow>
            (\<exists>vs. vs \<noteq> [] \<and> EvInsert vs (Inr 0) \<in> set (trace (snd (seaport_fetchOrders n w))))) \<and>
         (\<not> done_flag st \<and>
          fetch w (iter st) (seaport_request (cursor st) None None) = Inr r \<and> orders r = [] \<longrightarrow>
            seaport_page w st =
              (None, st\<lparr>iter := iter st + 1,
                        trace := trace st @ [EvFetch (seaport_request (cursor st) None None) (Inr r)],
                        cursor := next_cursor r\<rparr>) \<and>
            seaport_loop (Suc n) w st = seaport_loop n w (snd (seaport_page w st))) \<and>
         ((\<forall>k req. \<exists>r. fetch w k req = Inr r \<and> orders r = []) \<longrightarrow>
            fst (seaport_fetchOrders n w) = OutOfFuel \<and>
            fetches (trace (snd (seaport_fetchOrders n w))) = n \<and>
            inserts (trace (snd (seaport_fetchOrders n w))) = 0)"
proof (intro conjI impI)
  assume "fst (seaport_fetchOrders n w) = Returned ()"
  then show "\<exists>vs. vs \<noteq> [] \<and> EvInsert vs (Inr 0) \<in> set (trace (snd (seaport_fetchOrders n w)))"
    unfolding seaport_fetchOrders_def
    by (rule seaport_loop_returned) (simp add: seaport_init_def)
next
  assume h: "\<not> done_flag st \<and>
          fetch w (iter st) (seaport_request (cursor st) None None) = Inr r \<and> orders r = []"
  then have r: "fetch w (iter st) (seaport_request (cursor st) None None) = Inr r" "orders r = []"
    by simp_all
  show page: "seaport_page w st =
              (None, st\<lparr>iter := iter st + 1,
                        trace := trace st @ [EvFetch (seaport_request (cursor st) None None) (Inr r)],
                        cursor := next_cursor r\<rparr>)"
    using r by (rule seaport_page_empty)
  with h show "seaport_loop (Suc n) w st = seaport_loop n w (snd (seaport_page w st))"
    by (simp add: seaport_loop_ok)
next
  assume e: "\<forall>k req. \<exists>r. fetch w k req = Inr r \<and> orders r = []"
  have "\<not> done_flag (seaport_init :: 'p seaport_event seaport_state)"
    by (simp add: seaport_init_def)
  from seaport_loop_empty_pages [OF e this, of n]
  show "fst (seaport_fetchOrders n w) = OutOfFuel"
    and "fetches (trace (snd (seaport_fetchOrders n w))) = n"
    and "inserts (trace (snd (seaport_fetchOrders n w))) = 0"
    by (simp_all add: seaport_fetchOrders_def seaport_init_def fetches_def inserts_def)
qed

theorem drain_stops_only_on_duplicates_witness:
  "fst (seaport_fetchOrders 2 ex_seaport_dup) = Returned () \<and>
   (\<exists>vs. vs \<noteq> [] \<and> EvInsert vs (Inr 0) \<in> set (trace (snd (seaport_fetchOrders 2 ex_seaport_dup)))) \<and>
   \<not> done_flag (seaport_init :: string seaport_event seaport_state) \<and>
   fetch ex_seaport_empty 0 (seaport_request None None None) = Inr \<lparr>orders = [], next_cursor = None\<rparr> \<and>
   seaport_loop (Suc 3) ex_seaport_empty seaport_init =
     seaport_loop 3 ex_seaport_empty (snd (seaport_page ex_seaport_empty seaport_init)) \<and>
   fst (seaport_fetchOrders 7 ex_seaport_empty) = OutOfFuel \<and>
   fetches (trace (snd (seaport_fetchOrders 7 ex_seaport_empty))) = 7 \<and>
   inserts (trace (snd (seaport_fetchOrders 7 ex_seaport_empty))) = 0"
proof -
  let ?i = "seaport_init :: string seaport_event seaport_state"
  have r: "fst (seaport_fetchOrders 2 ex_seaport_dup) = Returned ()"
    by (simp add: seaport_defs ex_seaport_defs numeral_2_eq_2)
  from drain_stops_only_on_duplicates [where w = ex_seaport_dup and n = 2] r
  have A: "\<exists>vs. vs \<noteq> [] \<and> EvInsert vs (Inr 0) \<in> set (trace (snd (seaport_fetchOrders 2 ex_seaport_dup)))"
    by blast
  have nd: "\<not> done_flag ?i" and it: "iter ?i = 0" and cu: "cursor ?i = None"
    by (simp_all add: seaport_init_def)
  have f: "fetch ex_seaport_empty (iter ?i) (seaport_request (cursor ?i) None None) =
             Inr \<lparr>orders = [], next_cursor = None\<rparr>"
    by (simp add: ex_seaport_empty_def)
  have e: "\<forall>k req. \<exists>r. fetch ex_seaport_empty k req = Inr r \<and> orders r = []"
    by (simp add: ex_seaport_empty_def)
  from drain_stops_only_on_duplicates [where w = ex_seaport_empty and st = ?i and n = 3
      and r = "\<lparr>orders = [], next_cursor = None\<rparr>"] nd f
  have B: "seaport_loop (Suc 3) ex_seaport_empty ?i =
     seaport_loop 3 ex_seaport_empty (snd (seaport_page ex_seaport_empty ?i))"
    by simp
  from drain_stops_only_on_duplicates [where w = ex_seaport_empty and n = 7] e
  have C: "fst (seaport_fetchOrders 7 ex_seaport_empty) = OutOfFuel \<and>
     fetches (trace (snd (seaport_fetchOrders 7 ex_seaport_empty))) = 7 \<and>
     inserts (trace (snd (seaport_fetchOrders 7 ex_seaport_empty))) = 0"
    by blast
  from r A nd f B C it cu show ?thesis by simp
qed

subsection \<open>The bounded window fetch\<close>

lemma fetchAllOrders_try_shape:
  fixes w :: "'p seaport_world"
  obtains out rest where
    "fetchAllOrders_try w fromTimestamp toTimestamp cur =
       (out, EvFetch (seaport_request cur fromTimestamp toTimestamp)
               (fetch w 0 (seaport_request cur fromTimestamp toTimestamp)) # rest)"
    and "quiet rest" and "out \<noteq> OutOfFuel"
    and "\<And>v. out = Returned v \<Longrightarrow>
           \<exists>r. fetch w 0 (seaport_request cur fromTimestamp toTimestamp) = Inr r \<and> v = next_cursor r"
proof (cases "fetch w 0 (seaport_request cur fromTimestamp toTimestamp)")
  case (Inl e)
  then have "fetchAllOrders_try w fromTimestamp toTimestamp cur =
      (Raised e, EvFetch (seaport_request cur fromTimestamp toTimestamp)
               (fetch w 0 (seaport_request cur fromTimestamp toTimestamp)) # [])"
    by (simp add: fetchAllOrders_try_def Let_def)
  then show thesis by (rule that) (simp_all add: quiet_def)
next
  case (Inr r)
  note fetched = this
  show thesis
  proof (cases "handleAll (fetchAllOrders_handleOrder (parse w)) (orders r)")
    case (Inl e)
    with fetched have "fetchAllOrders_try w fromTimestamp toTimestamp cur =
      (Raised e, EvFetch (seaport_request cur fromTimestamp toTimestamp)
               (fetch w 0 (seaport_request cur fromTimestamp toTimestamp)) # [])"
      by (simp add: fetchAllOrders_try_def Let_def)
    then show thesis by (rule that) (simp_all add: quiet_def)
  next
    case (Inr pv)
    then obtain ps vs where
      handled: "handleAll (fetchAllOrders_handleOrder (parse w)) (orders r) = Inr (ps, vs)"
      by (cases pv) simp
    obtain qerr qtr where q: "relay w 0 ''seaport'' ps [] = (qerr, qtr)"
      by (cases "relay w 0 ''seaport'' ps []") blast
    have qq: "quiet qtr" using q by (rule relay_quiet)
    have q': "\<And>tr. relay w 0 ''seaport'' ps tr = (qerr, tr @ qtr)"
      using q by (rule relay_append)
    let ?out = "case qerr of None \<Rightarrow> Returned (next_cursor r) | Some e \<Rightarrow> Raised e"
    have out: "?out \<noteq> OutOfFuel" "\<And>v. ?out = Returned v \<Longrightarrow>
           \<exists>r. fetch w 0 (seaport_request cur fromTimestamp toTimestamp) = Inr r \<and> v = next_cursor r"
      using fetched by (cases qerr; simp)+
    show thesis
    proof (cases "vs = []")
      case True
      with fetched handled q' have "fetchAllOrders_try w fromTimestamp toTimestamp cur =
        (?out, EvFetch (seaport_request cur fromTimestamp toTimestamp)
               (fetch w 0 (seaport_request cur fromTimestamp toTimestamp)) # qtr)"
        by (cases qerr) (simp_all add: fetchAllOrders_try_def Let_def)
      then show thesis using qq out by (rule that)
    next
      case False
      note nonempty = this
      show thesis
      proof (cases "insert_rows w 0 vs")
        case (Inl e)
        with fetched handled nonempty have "fetchAllOrders_try w fromTimestamp toTimestamp cur =
          (Raised e, EvFetch (seaport_request cur fromTimestamp toTimestamp)
               (fetch w 0 (seaport_request cur fromTimestamp toTimestamp)) # [EvInsert vs (Inl e)])"
          by (simp add: fetchAllOrders_try_def Let_def)
        then show thesis by (rule that) (simp_all add: quiet_def)
      next
        case (Inr n)
        have qi: "quiet (EvInsert vs (Inr n) # qtr)" using qq by (simp add: quiet_def)
        from Inr fetched handled nonempty q' have "fetchAllOrders_try w fromTimestamp toTimestamp cur =
          (?out, EvFetch (seaport_request cur fromTimestamp toTimestamp)
               (fetch w 0 (seaport_request cur fromTimestamp toTimestamp))
                 # (EvInsert vs (Inr n) # qtr))"
          by (cases qerr) (simp_all add: fetchAllOrders_try_def Let_def)
        then show thesis using qi out by (rule that)
      qed
    qed
  qed
qed

lemma fetchAllOrders_try_returns:
  fixes w :: "'p seaport_world"
  assumes "fetch w 0 (seaport_request cur fromTimestamp toTimestamp) = Inr r"
    and "handleAll (fetchAllOrders_handleOrder (parse w)) (orders r) = Inr (ps, vs)"
    and "vs \<noteq> [] \<longrightarrow> (\<exists>n. insert_rows w 0 vs = Inr n)"
    and "ps \<noteq> [] \<longrightarrow>
           enqueue w 0 (map (\<lambda>order. \<lparr>kind = ''seaport'', env_data = params order\<rparr>) ps) True = None"
  shows "fst (fetchAllOrders_try w fromTimestamp toTimestamp cur) = Returned (next_cursor r)"
proof (cases "vs = []")
  case True
  with assms show ?thesis
    by (cases "ps = []") (simp_all add: fetchAllOrders_try_def relay_def Let_def)
next
  case False
  with assms(3) obtain n where "insert_rows w 0 vs = Inr n" by blast
  with False assms show ?thesis
    by (cases "ps = []") (simp_all add: fetchAllOrders_try_def relay_def Let_def)
qed

lemma fetchAllOrders_try_single_page:
  fixes w :: "'p seaport_world"
  shows "fetches (snd (fetchAllOrders_try w fromTimestamp toTimestamp cur)) = 1 \<and>
         sleeps (snd (fetchAllOrders_try w fromTimestamp toTimestamp cur)) = 0 \<and>
         hd (snd (fetchAllOrders_try w fromTimestamp toTimestamp cur)) =
           EvFetch (seaport_request cur fromTimestamp toTimestamp)
             (fetch w 0 (seaport_request cur fromTimestamp toTimestamp)) \<and>
         q_listedAfter (url (seaport_request cur fromTimestamp toTimestamp)) = fromTimestamp \<and>
         q_listedBefore (url (seaport_request cur fromTimestamp toTimestamp)) = toTimestamp \<and>
         q_cursor (url (seaport_request cur fromTimestamp toTimestamp)) = cur \<and>
         q_limit (url (seaport_request cur fromTimestamp toTimestamp)) = 50 \<and>
         fst (fetchAllOrders_try w fromTimestamp toTimestamp cur) \<noteq> OutOfFuel \<and>
         (fst (fetchAllOrders_try w fromTimestamp toTimestamp cur) = Returned v \<longrightarrow>
            (\<exists>r. fetch w 0 (seaport_request cur fromTimestamp toTimestamp) = Inr r \<and>
                 v = next_cursor r)) \<and>
         (fetch w 0 (seaport_request cur fromTimestamp toTimestamp) = Inr r \<and>
          handleAll (fetchAllOrders_handleOrder (parse w)) (orders r) = Inr (ps, vs) \<and>
          (vs \<noteq> [] \<longrightarrow> (\<exists>n. insert_rows w 0 vs = Inr n)) \<and>
          (ps \<noteq> [] \<longrightarrow>
             enqueue w 0 (map (\<lambda>order. \<lparr>kind = ''seaport'', env_data = params order\<rparr>) ps) True
               = None) \<longrightarrow>
            fst (fetchAllOrders_try w fromTimestamp toTimestamp cur) = Returned (next_cursor r))"
proof (rule fetchAllOrders_try_shape [of w fromTimestamp toTimestamp cur])
  fix out rest
  assume run: "fetchAllOrders_try w fromTimestamp toTimestamp cur =
       (out, EvFetch (seaport_request cur fromTimestamp toTimestamp)
               (fetch w 0 (seaport_request cur fromTimestamp toTimestamp)) # rest)"
    and rest: "quiet rest" and out: "out \<noteq> OutOfFuel"
    and ret: "\<And>v. out = Returned v \<Longrightarrow>
           \<exists>r. fetch w 0 (seaport_request cur fromTimestamp toTimestamp) = Inr r \<and> v = next_cursor r"
  from run rest have A: "fetches (snd (fetchAllOrders_try w fromTimestamp toTimestamp cur)) = 1"
    "sleeps (snd (fetchAllOrders_try w fromTimestamp toTimestamp cur)) = 0"
    "hd (snd (fetchAllOrders_try w fromTimestamp toTimestamp cur)) =
           EvFetch (seaport_request cur fromTimestamp toTimestamp)
             (fetch w 0 (seaport_request cur fromTimestamp toTimestamp))"
    by (simp_all add: fetches_def sleeps_def quiet_fetches quiet_sleeps)
  have B: "q_listedAfter (url (seaport_request cur fromTimestamp toTimestamp)) = fromTimestamp"
    "q_listedBefore (url (seaport_request cur fromTimestamp toTimestamp)) = toTimestamp"
    "q_cursor (url (seaport_request cur fromTimestamp toTimestamp)) = cur"
    "q_limit (url (seaport_request cur fromTimestamp toTimestamp)) = 50"
    by (simp_all add: seaport_request_def seaport_limit_def)
  from run out have C: "fst (fetchAllOrders_try w fromTimestamp toTimestamp cur) \<noteq> OutOfFuel"
    by simp
  have D: "fst (fetchAllOrders_try w fromTimestamp toTimestamp cur) = Returned v \<longrightarrow>
            (\<exists>r. fetch w 0 (seaport_request cur fromTimestamp toTimestamp) = Inr r \<and>
                 v = next_cursor r)"
  proof
    assume "fst (fetchAllOrders_try w fromTimestamp toTimestamp cur) = Returned v"
    with run have "out = Returned v" by simp
    then show "\<exists>r. fetch w 0 (seaport_request cur fromTimestamp toTimestamp) = Inr r \<and>
                 v = next_cursor r"
      by (rule ret)
  qed
  have E: "fetch w 0 (seaport_request cur fromTimestamp toTimestamp) = Inr r \<and>
          handleAll (fetchAllOrders_handleOrder (parse w)) (orders r) = Inr (ps, vs) \<and>
          (vs \<noteq> [] \<longrightarrow> (\<exists>n. insert_rows w 0 vs = Inr n)) \<and>
          (ps \<noteq> [] \<longrightarrow>
             enqueue w 0 (map (\<lambda>order. \<lparr>kind = ''seaport'', env_data = params order\<rparr>) ps) True
               = None) \<longrightarrow>
            fst (fetchAllOrders_try w fromTimestamp toTimestamp cur) = Returned (next_cursor r)"
  proof
    assume h: "fetch w 0 (seaport_request cur fromTimestamp toTimestamp) = Inr r \<and>
          handleAll (fetchAllOrders_handleOrder (parse w)) (orders r) = Inr (ps, vs) \<and>
          (vs \<noteq> [] \<longrightarrow> (\<exists>n. insert_rows w 0 vs = Inr n)) \<and>
          (ps \<noteq> [] \<longrightarrow>
             enqueue w 0 (map (\<lambda>order. \<lparr>kind = ''seaport'', env_data = params order\<rparr>) ps) True
               = None)"
    show "fst (fetchAllOrders_try w fromTimestamp toTimestamp cur) = Returned (next_cursor r)"
      by (rule fetchAllOrders_try_returns [of w cur fromTimestamp toTimestamp r ps vs])
         (use h in simp_all)
  qed
  from A B C D E show ?thesis by - (intro conjI; assumption)
qed

lemma format_bound_in_range:
  assumes "\<forall>t. ts = Some t \<longrightarrow> \<bar>t\<bar> \<le> 8640000000000"
  shows "format_bound ts = Inr ()"
proof (cases ts)
  case None
  then show ?thesis by (simp add: format_bound_def)
next
  case (Some t)
  with assms have "\<bar>t\<bar> \<le> 8640000000000" by simp
  then have "\<bar>t * 1000\<bar> \<le> 8640000000000000" by (simp add: abs_mult)
  with Some show ?thesis
    by (simp add: format_bound_def format_fromUnixTime_def max_date_ms_def)
qed

lemma format_bound_out_of_range:
  assumes "ts = Some t" and "8640000000000 < \<bar>t\<bar>"
  shows "format_bound ts = Inl RangeError"
proof -
  from assms(2) have "8640000000000000 < \<bar>t * 1000\<bar>" by (simp add: abs_mult)
  moreover from assms(2) have "t \<noteq> 0" by auto
  ultimately show ?thesis using assms(1)
    by (simp add: format_bound_def format_fromUnixTime_def max_date_ms_def)
qed

lemma format_bound_cases:
  "format_bound ts = Inr () \<or> format_bound ts = Inl RangeError"
  by (simp add: format_bound_def format_fromUnixTime_def split: option.splits)

lemma fetchAllOrders_in_range:
  assumes "format_bound fromTimestamp = Inr ()" and "format_bound toTimestamp = Inr ()"
  shows "fetchAllOrders w fromTimestamp toTimestamp cur =
           fetchAllOrders_try w fromTimestamp toTimestamp cur"
  using assms by (simp add: fetchAllOrders_def)

lemma fetchAllOrders_out_of_range:
  assumes "format_bound fromTimestamp = Inl RangeError \<or> format_bound toTimestamp = Inl RangeError"
  shows "fetchAllOrders w fromTimestamp toTimestamp cur = (Raised RangeError, [])"
proof (cases "format_bound fromTimestamp = Inl RangeError")
  case True
  then show ?thesis by (simp add: fetchAllOrders_def)
next
  case False
  with assms format_bound_cases [of fromTimestamp]
  have "format_bound fromTimestamp = Inr ()" "format_bound toTimestamp = Inl RangeError"
    by blast+
  then show ?thesis by (simp add: fetchAllOrders_def)
qed

text \<open>
  Claim C8. Take time bounds that a \<open>Date\<close> can hold: each of them is absent, or at most
  8 640 000 000 000 seconds away from the epoch. Then \<open>fetchAllOrders\<close> makes exactly one
  fetch and no delay, whatever the collaborators answer. The request of that fetch carries
  the two time bounds and the cursor of the call as they are, with the page size of 50.
  The call always comes to its end; what it returns is the \<open>next\<close> token of the answer to
  that fetch, and it does return it whenever no step of the page throws. With a time bound
  further away than that, the call rejects with a \<open>RangeError\<close> and makes no fetch at all.
\<close>

theorem window_single_page:
  fixes w :: "'p seaport_world"
  shows "((\<forall>t. fromTimestamp = Some t \<longrightarrow> \<bar>t\<bar> \<le> 8640000000000) \<and>
          (\<forall>t. toTimestamp = Some t \<longrightarrow> \<bar>t\<bar> \<le> 8640000000000) \<longrightarrow>
         fetches (snd (fetchAllOrders w fromTimestamp toTimestamp cur)) = 1 \<and>
         sleeps (snd (fetchAllOrders w fromTimestamp toTimestamp cur)) = 0 \<and>
         hd (snd (fetchAllOrders w fromTimestamp toTimestamp cur)) =
           EvFetch (seaport_request cur fromTimestamp toTimestamp)
             (fetch w 0 (seaport_request cur fromTimestamp toTimestamp)) \<and>
         q_listedAfter (url (seaport_request cur fromTimestamp toTimestamp)) = fromTimestamp \<and>
         q_listedBefore (url (seaport_request cur fromTimestamp toTimestamp)) = toTimestamp \<and>
         q_cursor (url (seaport_request cur fromTimestamp toTimestamp)) = cur \<and>
         q_limit (url (seaport_request cur fromTimestamp toTimestamp)) = 50 \<and>
         fst (fetchAllOrders w fromTimestamp toTimestamp cur) \<noteq> OutOfFuel \<and>
         (fst (fetchAllOrders w fromTimestamp toTimestamp cur) = Returned v \<longrightarrow>
            (\<exists>r. fetch w 0 (seaport_request cur fromTimestamp toTimestamp) = Inr r \<and>
                 v = next_cursor r)) \<and>
         (fetch w 0 (seaport_request cur fromTimestamp toTimestamp) = Inr r \<and>
          handleAll (fetchAllOrders_handleOrder (parse w)) (orders r) = Inr (ps, vs) \<and>
          (vs \<noteq> [] \<longrightarrow> (\<exists>n. insert_rows w 0 vs = Inr n)) \<and>
          (ps \<noteq> [] \<longrightarrow>
             enqueue w 0 (map (\<lambda>order. \<lparr>kind = ''seaport'', env_data = params order\<rparr>) ps) True
               = None) \<longrightarrow>
            fst (fetchAllOrders w fromTimestamp toTimestamp cur) = Returned (next_cursor r))) \<and>
         ((\<exists>t. fromTimestamp = Some t \<and> 8640000000000 < \<bar>t\<bar>) \<or>
          (\<exists>t. toTimestamp = Some t \<and> 8640000000000 < \<bar>t\<bar>) \<longrightarrow>
            fetchAllOrders w fromTimestamp toTimestamp cur = (Raised RangeError, []))"
proof (rule conjI; rule impI)
  assume "(\<exists>t. fromTimestamp = Some t \<and> 8640000000000 < \<bar>t\<bar>) \<or>
          (\<exists>t. toTimestamp = Some t \<and> 8640000000000 < \<bar>t\<bar>)"
  then have "format_bound fromTimestamp = Inl RangeError \<or>
             format_bound toTimestamp = Inl RangeError"
    using format_bound_out_of_range by blast
  then show "fetchAllOrders w fromTimestamp toTimestamp cur = (Raised RangeError, [])"
    by (rule fetchAllOrders_out_of_range)
next
  assume "(\<forall>t. fromTimestamp = Some t \<longrightarrow> \<bar>t\<bar> \<le> 8640000000000) \<and>
          (\<forall>t. toTimestamp = Some t \<longrightarrow> \<bar>t\<bar> \<le> 8640000000000)"
  then have "format_bound fromTimestamp = Inr ()" "format_bound toTimestamp = Inr ()"
    by (simp_all add: format_bound_in_range)
  then have eq: "fetchAllOrders w fromTimestamp toTimestamp cur =
                   fetchAllOrders_try w fromTimestamp toTimestamp cur"
    by (rule fetchAllOrders_in_range)
  show "fetches (snd (fetchAllOrders w fromTimestamp toTimestamp cur)) = 1 \<and>
         sleeps (snd (fetchAllOrders w fromTimestamp toTimestamp cur)) = 0 \<and>
         hd (snd (fetchAllOrders w fromTimestamp toTimestamp cur)) =
           EvFetch (seaport_request cur fromTimestamp toTimestamp)
             (fetch w 0 (seaport_request cur fromTimestamp toTimestamp)) \<and>
         q_listedAfter (url (seaport_request cur fromTimestamp toTimestamp)) = fromTimestamp \<and>
         q_listedBefore (url (seaport_request cur fromTimestamp toTimestamp)) = toTimestamp \<and>
         q_cursor (url (seaport_request cur fromTimestamp toTimestamp)) = cur \<and>
         q_limit (url (seaport_request cur fromTimestamp toTimestamp)) = 50 \<and>
         fst (fetchAllOrders w fromTimestamp toTimestamp cur) \<noteq> OutOfFuel \<and>
         (fst (fetchAllOrders w fromTimestamp toTimestamp cur) = Returned v \<longrightarrow>
            (\<exists>r. fetch w 0 (seaport_request cur fromTimestamp toTimestamp) = Inr r \<and>
                 v = next_cursor r)) \<and>
         (fetch w 0 (seaport_request cur fromTimestamp toTimestamp) = Inr r \<and>
          handleAll (fetchAllOrders_handleOrder (parse w)) (orders r) = Inr (ps, vs) \<and>
          (vs \<noteq> [] \<longrightarrow> (\<exists>n. insert_rows w 0 vs = Inr n)) \<and>
          (ps \<noteq> [] \<longrightarrow>
             enqueue w 0 (map (\<lambda>order. \<lparr>kind = ''seaport'', env_data = params order\<rparr>) ps) True
               = None) \<longrightarrow>
            fst (fetchAllOrders w fromTimestamp toTimestamp cur) = Returned (next_cursor r))"
    unfolding eq by (rule fetchAllOrders_try_single_page)
qed

lemmas window_defs = fetchAllOrders_try_def seaport_request_def fetchAllOrders_handleOrder_def
  fetchAllOrders_target_def parsed_contract_def offer0_token_def relay_def Let_def

theorem window_single_page_witness:
  "fetches (snd (fetchAllOrders ex_seaport_window (Some 1655000000) (Some 1655600000)
                   (Some ''cursor-0''))) = 1 \<and>
   fetch ex_seaport_window 0
     (seaport_request (Some ''cursor-0'') (Some 1655000000) (Some 1655600000)) = Inr ex_seaport_page \<and>
   fst (fetchAllOrders ex_seaport_window (Some 1655000000) (Some 1655600000) (Some ''cursor-0'')) =
     Returned (Some ''cursor-1'')"
proof -
  let ?w = ex_seaport_window
  let ?vs = "[\<lparr>hash = ''0xAbCd'', target = toLowerCase ''0xC0FFEE'',
               maker = toLowerCase ''0xBEEF02'', created_at = ''2022-06-20T12:00:00'',
               data = \<lparr>offer = [\<lparr>token = ''0xC0FFEE''\<rparr>], parameters_rest = ''consideration''\<rparr>,
               delayed = None, source = ''opensea''\<rparr>]"
  have f: "fetch ?w 0 (seaport_request (Some ''cursor-0'') (Some 1655000000) (Some 1655600000)) =
             Inr ex_seaport_page"
    by (simp add: ex_seaport_window_def seaport_request_def)
  have h: "handleAll (fetchAllOrders_handleOrder (parse ?w)) (orders ex_seaport_page) = Inr ([], ?vs)"
    by (simp add: window_defs ex_seaport_window_def ex_seaport_defs)
  have i: "?vs \<noteq> [] \<longrightarrow> (\<exists>n. insert_rows ?w 0 ?vs = Inr n)"
    by (simp add: ex_seaport_window_def)
  have e: "([] :: string sdk_order list) \<noteq> [] \<longrightarrow>
             enqueue ?w 0 (map (\<lambda>order. \<lparr>kind = ''seaport'', env_data = params order\<rparr>) []) True = None"
    by simp
  have n: "next_cursor ex_seaport_page = Some ''cursor-1''" by (simp add: ex_seaport_page_def)
  note T = window_single_page [where w = ?w and fromTimestamp = "Some 1655000000"
      and toTimestamp = "Some 1655600000" and cur = "Some ''cursor-0''"
      and r = ex_seaport_page and ps = "[]" and vs = ?vs]
  have b: "(\<forall>t. Some (1655000000::int) = Some t \<longrightarrow> \<bar>t\<bar> \<le> 8640000000000) \<and>
           (\<forall>t. Some (1655600000::int) = Some t \<longrightarrow> \<bar>t\<bar> \<le> 8640000000000)"
    by simp
  note T1 = T [THEN conjunct1, THEN mp, OF b]
  from T1 have one: "fetches (snd (fetchAllOrders ?w (Some 1655000000) (Some 1655600000)
                   (Some ''cursor-0''))) = 1"
    by (rule conjunct1)
  from T1 f h i e
  have "fst (fetchAllOrders ?w (Some 1655000000) (Some 1655600000) (Some ''cursor-0'')) =
          Returned (next_cursor ex_seaport_page)"
    by blast
  with n have ret: "fst (fetchAllOrders ?w (Some 1655000000) (Some 1655600000) (Some ''cursor-0'')) =
          Returned (Some ''cursor-1'')"
    by simp
  from one f ret show ?thesis by (intro conjI)
qed

text \<open>
  A lower bound of 10000000000000000 seconds is no date: the call rejects before it has fetched
  anything, although the upstream would have answered.
\<close>

theorem window_out_of_range_counterexample:
  "fetches (snd (fetchAllOrders ex_seaport_window (Some 10000000000000000) None None)) = 0 \<and>
   fst (fetchAllOrders ex_seaport_window (Some 10000000000000000) None None) = Raised RangeError"
  by (simp add: fetchAllOrders_def format_bound_def format_fromUnixTime_def max_date_ms_def
        fetches_def)

subsection \<open>Where the stored rows come from\<close>









subsection \<open>The hash of a stored row\<close>




subsection \<open>The target of a stored row\<close>
















end
